theory Spec2Isabelle
  imports Complex_Main "HOL-Library.AList" "HOL-Library.Signed_Division"
begin

section \<open>Adaptive sampling processor: data model\<close>

text \<open>
  Shallow embedding of \<^verbatim>\<open>plugin/sampling/strategystore/adaptive/processor.go\<close>.

  Conventions of the embedding.
  \<^item> \<^verbatim>\<open>time.Duration\<close>, \<^verbatim>\<open>time.Time\<close> and the \<^verbatim>\<open>int64\<close> counts are integers (durations
    and times in nanoseconds); the two places where 64-bit wrap-around can change a
    result of the code below (the quotient computing \<^verbatim>\<open>buckets\<close> and the sum of two
    counts) are written out with \<open>wrap64\<close>.
  \<^item> \<^verbatim>\<open>float64\<close> is idealised as \<open>real\<close>. Comparison, \<^verbatim>\<open>math.Abs\<close>, \<^verbatim>\<open>math.Min\<close>,
    \<^verbatim>\<open>math.Max\<close> and doubling are exact on finite floats; subtraction, division and
    the weighted sum are rounded in the code and exact here. Infinities and NaN
    (a rate over an interval of length zero) are outside the model.
  \<^item> A Go map is an association list with \<open>map_of\<close> as lookup and \<open>AList.update\<close> as
    assignment; ranging over the map follows the list. Go leaves the iteration order
    open; every loop below writes each key at most once per pass, so the maps built do
    not depend on it.
  \<^item> The mutex, the channels and the metrics sinks carry no data and are left out; what
    the logger receives is appended to the field \<open>logged\<close>.
  \<^item> A run-time panic (index or slice bound out of range) is a value of type \<open>panic\<close>.
\<close>

type_synonym duration = int
type_synonym time = int

definition second :: duration where
  "second = 1000000000"

definition wrap64 :: "int \<Rightarrow> int" where
  "wrap64 x = (x + 2 ^ 63) mod 2 ^ 64 - 2 ^ 63"

datatype panic = ThroughputsIndexOutOfRange | ServiceCacheIndexOutOfRange
  | WeightsIndexOutOfRange | SliceBoundsOutOfRange

datatype config_error = errIntervals | errNonZeroIntervals | errLockIntervals
  | errLookbackQPSCount

definition maxSamplingProbability :: real where
  "maxSamplingProbability = 1.0"

definition samplingLock :: string where
  "samplingLock = ''sampling_lock''"

definition getThroughputErrMsg :: string where
  "getThroughputErrMsg = ''Failed to get throughput from storage''"

definition acquireLockErrMsg :: string where
  "acquireLockErrMsg = ''Failed to acquire lock''"

definition defaultFollowerProbabilityInterval :: duration where
  "defaultFollowerProbabilityInterval = 20 * second"

definition serviceCacheSize :: nat where
  "serviceCacheSize = 25"

text \<open>
  Modelled from the spec: \<^verbatim>\<open>samplingstore.Throughput\<close> (declared in package
  \<^verbatim>\<open>storage/samplingstore\<close>); section 6 of the specification gives its shape,
  \<^verbatim>\<open>{ Service, Operation, Count: int64, Probabilities: set<string> }\<close>. The set is the key
  set of the Go map; a nil map is the empty set.
\<close>

record Throughput =
  Service :: string
  Operation :: string
  Count :: int
  Probabilities :: "string set"

type_synonym serviceOperationThroughput = "(string \<times> (string \<times> Throughput) list) list"

record throughputBucket =
  throughput :: serviceOperationThroughput
  interval :: duration
  endTime :: time

type_synonym ServiceOperationProbabilities = "(string \<times> (string \<times> real) list) list"
type_synonym ServiceOperationQPS = "(string \<times> (string \<times> real) list) list"

text \<open>
  Modelled from the spec: \<^verbatim>\<open>ProcessorConfig\<close> (declared in another file of the package);
  the fields are the ones the processor reads, as enumerated in section 6. The two
  \<^verbatim>\<open>Mutable\<close> getters are read once per call and appear as fields.
\<close>

record ProcessorConfig =
  CalculationInterval :: duration
  LookbackInterval :: duration
  LookbackQPSCount :: int
  Delay :: duration
  LeaderLeaseRefreshInterval :: duration
  FollowerLeaseRefreshInterval :: duration
  MinSamplingProbability :: real
  DefaultSamplingProbability :: real
  LowerBoundTracesPerSecond :: real
  GetTargetQPS :: real
  GetQPSEquivalenceThreshold :: real

text \<open>
  Modelled from the spec: the thrift-generated \<^verbatim>\<open>sampling.SamplingStrategyResponse\<close>
  (section 6, "Sampling strategy response"). The fields of the nested structures are
  prefixed where their Go names coincide with a field of another structure.
\<close>

datatype SamplingStrategyType = SamplingStrategyType_PROBABILISTIC
  | SamplingStrategyType_RATE_LIMITING

record ProbabilisticSamplingStrategy =
  SamplingRate :: real

record OperationSamplingStrategy =
  strategyOperation :: string
  ProbabilisticSampling :: "ProbabilisticSamplingStrategy option"

record PerOperationSamplingStrategies =
  opDefaultSamplingProbability :: real
  opDefaultLowerBoundTracesPerSecond :: real
  PerOperationStrategies :: "OperationSamplingStrategy list"

record SamplingStrategyResponse =
  StrategyType :: SamplingStrategyType
  OperationSampling :: "PerOperationSamplingStrategies option"

text \<open>
  Modelled from the spec: \<^verbatim>\<open>samplingCache\<close> and \<^verbatim>\<open>samplingCacheEntry\<close> (declared
  elsewhere in the package): section 3, "each snapshot is a mapping
  (service, operation) to \<^verbatim>\<open>{ probability, using_adaptive }\<close>"; \<^verbatim>\<open>Get\<close> yields nil for a
  missing pair and \<^verbatim>\<open>Set\<close> creates the service's inner map when needed. The field name
  \<^verbatim>\<open>usingAdapative\<close> is the source's spelling.
\<close>

record samplingCacheEntry =
  probability :: real
  usingAdapative :: bool

type_synonym samplingCache = "(string \<times> (string \<times> samplingCacheEntry) list) list"

definition cache_Get :: "samplingCache \<Rightarrow> string \<Rightarrow> string \<Rightarrow> samplingCacheEntry option" where
  "cache_Get c service operation =
     (case map_of c service of
        None \<Rightarrow> None
      | Some v \<Rightarrow> map_of v operation)"

definition cache_Set :: "samplingCache \<Rightarrow> string \<Rightarrow> string \<Rightarrow> samplingCacheEntry \<Rightarrow> samplingCache" where
  "cache_Set c service operation entry =
     (let v = (case map_of c service of None \<Rightarrow> [] | Some v \<Rightarrow> v)
      in AList.update service (AList.update operation entry v) c)"

text \<open>
  The processor. \<open>weightsCache\<close> stands for \<^verbatim>\<open>weightsCache.getWeights\<close> and
  \<open>probabilityCalculator\<close> for \<^verbatim>\<open>ProbabilityCalculator.Calculate\<close>; both are declared
  elsewhere in the repository and are carried as function-valued fields, as the Go
  struct carries them as object-valued ones. \<open>leader\<close> is the embedded \<^verbatim>\<open>atomic.Bool\<close>.
\<close>

record processor =
  config :: ProcessorConfig
  leader :: bool
  hostname :: string
  buckets :: int
  probabilities :: ServiceOperationProbabilities
  qps :: ServiceOperationQPS
  throughputs :: "throughputBucket list"
  strategyResponses :: "(string \<times> SamplingStrategyResponse) list"
  weightsCache :: "nat \<Rightarrow> real list"
  probabilityCalculator :: "real \<Rightarrow> real \<Rightarrow> real \<Rightarrow> real"
  followerProbabilityInterval :: duration
  serviceCache :: "samplingCache list"
  logged :: "string list"

section \<open>Construction\<close>

text \<open>
  \<^verbatim>\<open>NewProcessor\<close>. The four checks are in the order of the source; the quotient is Go's
  integer division, which truncates towards zero. The weights cache and the
  probability calculator that the source builds with \<^verbatim>\<open>newWeightsCache()\<close> and
  \<^verbatim>\<open>NewPercentageIncreaseCappedCalculator(1.0)\<close> are arguments.
\<close>

definition NewProcessor ::
  "ProcessorConfig \<Rightarrow> string \<Rightarrow> (nat \<Rightarrow> real list) \<Rightarrow> (real \<Rightarrow> real \<Rightarrow> real \<Rightarrow> real)
     \<Rightarrow> config_error + processor" where
  "NewProcessor cfg host weights calculator =
     (if LookbackInterval cfg < CalculationInterval cfg then Inl errIntervals
      else if CalculationInterval cfg = 0 \<or> LookbackInterval cfg = 0 then Inl errNonZeroIntervals
      else if FollowerLeaseRefreshInterval cfg < LeaderLeaseRefreshInterval cfg
        then Inl errLockIntervals
      else if LookbackQPSCount cfg < 1 then Inl errLookbackQPSCount
      else Inr \<lparr> config = cfg,
                 leader = False,
                 hostname = host,
                 buckets = wrap64 (LookbackInterval cfg sdiv CalculationInterval cfg),
                 probabilities = [],
                 qps = [],
                 throughputs = [],
                 strategyResponses = [],
                 weightsCache = weights,
                 probabilityCalculator = calculator,
                 followerProbabilityInterval = defaultFollowerProbabilityInterval,
                 serviceCache = [],
                 logged = [] \<rparr>)"

section \<open>Strategy responder\<close>

definition generateDefaultSamplingStrategyResponse :: "processor \<Rightarrow> SamplingStrategyResponse" where
  "generateDefaultSamplingStrategyResponse p =
     \<lparr> StrategyType = SamplingStrategyType_PROBABILISTIC,
       OperationSampling = Some
         \<lparr> opDefaultSamplingProbability = DefaultSamplingProbability (config p),
           opDefaultLowerBoundTracesPerSecond = LowerBoundTracesPerSecond (config p),
           PerOperationStrategies = [] \<rparr> \<rparr>"

definition GetSamplingStrategyResponses :: "processor \<Rightarrow> string \<Rightarrow> SamplingStrategyResponse" where
  "GetSamplingStrategyResponses p service =
     (case map_of (strategyResponses p) service of
        Some strategy \<Rightarrow> strategy
      | None \<Rightarrow> generateDefaultSamplingStrategyResponse p)"

section \<open>Leader election\<close>

definition isLeader :: "processor \<Rightarrow> bool" where
  "isLeader p = leader p"

definition setLeader :: "processor \<Rightarrow> bool \<Rightarrow> processor" where
  "setLeader p b = p\<lparr>leader := b\<rparr>"

text \<open>
  \<^verbatim>\<open>acquireLock\<close>. The lock service is the function \<open>acquire\<close> from a lock name to the
  outcome of \<^verbatim>\<open>Acquire\<close>: \<open>Inl\<close> an error, \<open>Inr\<close> the boolean.
\<close>

definition acquireLock :: "processor \<Rightarrow> (string \<Rightarrow> string + bool) \<Rightarrow> processor \<times> duration" where
  "acquireLock p acquire =
     (let p1 = (case acquire samplingLock of
                  Inr acquiredLeaderLock \<Rightarrow> setLeader p acquiredLeaderLock
                | Inl err \<Rightarrow> p\<lparr>logged := logged p @ [acquireLockErrMsg]\<rparr>)
      in if isLeader p1 then (p1, LeaderLeaseRefreshInterval (config p1))
         else (p1, FollowerLeaseRefreshInterval (config p1)))"

section \<open>Throughput aggregation\<close>

definition combineProbabilities :: "string set \<Rightarrow> string set \<Rightarrow> string set" where
  "combineProbabilities p1 p2 = p1 \<union> p2"

text \<open>
  Assignment \<^verbatim>\<open>m[service][operation] = v\<close> on a two-level map whose inner map is created
  when the service is new.
\<close>

definition nested_lookup :: "(string \<times> (string \<times> 'a) list) list \<Rightarrow> string \<Rightarrow> string \<Rightarrow> 'a option" where
  "nested_lookup m service operation =
     (case map_of m service of
        None \<Rightarrow> None
      | Some v \<Rightarrow> map_of v operation)"

definition inner_map :: "(string \<times> (string \<times> 'a) list) list \<Rightarrow> string \<Rightarrow> (string \<times> 'a) list" where
  "inner_map m service = (case map_of m service of None \<Rightarrow> [] | Some v \<Rightarrow> v)"

definition nested_update ::
  "string \<Rightarrow> string \<Rightarrow> 'a \<Rightarrow> (string \<times> (string \<times> 'a) list) list \<Rightarrow> (string \<times> (string \<times> 'a) list) list" where
  "nested_update service operation v m =
     AList.update service (AList.update operation v (inner_map m service)) m"

definition ensure_service ::
  "string \<Rightarrow> (string \<times> (string \<times> 'a) list) list \<Rightarrow> (string \<times> (string \<times> 'a) list) list" where
  "ensure_service service m =
     (if map_of m service = None then AList.update service [] m else m)"

text \<open>One pass of the loop of \<^verbatim>\<open>aggregateThroughput\<close> over a row of the store.\<close>

definition aggregate_row :: "serviceOperationThroughput \<Rightarrow> Throughput \<Rightarrow> serviceOperationThroughput" where
  "aggregate_row aggregatedThroughput row =
     (let service = Service row;
          operation = Operation row;
          agg = ensure_service service aggregatedThroughput
      in case nested_lookup agg service operation of
           Some t \<Rightarrow>
             nested_update service operation
               (t\<lparr> Count := wrap64 (Count t + Count row),
                   Probabilities := combineProbabilities (Probabilities t) (Probabilities row) \<rparr>) agg
         | None \<Rightarrow> nested_update service operation row agg)"

definition aggregateThroughput :: "Throughput list \<Rightarrow> serviceOperationThroughput" where
  "aggregateThroughput rows = foldl aggregate_row [] rows"

text \<open>
  \<^verbatim>\<open>prependThroughputBucket\<close>. The slice expression \<^verbatim>\<open>p.throughputs[0:p.buckets]\<close> panics
  for a negative bound.
\<close>

definition prependThroughputBucket :: "processor \<Rightarrow> throughputBucket \<Rightarrow> panic + processor" where
  "prependThroughputBucket p bucket =
     (let ts = bucket # throughputs p
      in if int (length ts) > buckets p
         then (if buckets p < 0 then Inl SliceBoundsOutOfRange
               else Inr (p\<lparr>throughputs := take (nat (buckets p)) ts\<rparr>))
         else Inr (p\<lparr>throughputs := ts\<rparr>))"

text \<open>
  \<^verbatim>\<open>initializeThroughput\<close>. The store is the function \<open>GetThroughput\<close> from a time window
  to \<open>Inl\<close> an error or \<open>Inr\<close> the rows; the logger is the one given to \<^verbatim>\<open>NewProcessor\<close>
  (not nil). The counter \<^verbatim>\<open>i\<close> runs from 0 to \<^verbatim>\<open>p.buckets\<close>, so the loop makes
  \<open>nat (buckets p)\<close> passes unless it returns early; \<open>initializeThroughput_loop\<close> takes
  the number of passes left.
\<close>

fun initializeThroughput_loop ::
  "(time \<Rightarrow> time \<Rightarrow> string + Throughput list) \<Rightarrow> nat \<Rightarrow> processor \<Rightarrow> time \<Rightarrow> processor" where
  "initializeThroughput_loop GetThroughput 0 p endT = p"
| "initializeThroughput_loop GetThroughput (Suc n) p endT =
     (let startT = endT + CalculationInterval (config p) * -1
      in case GetThroughput startT endT of
           Inl err \<Rightarrow> p\<lparr>logged := logged p @ [getThroughputErrMsg]\<rparr>
         | Inr rows \<Rightarrow>
             if length rows = 0 then p
             else initializeThroughput_loop GetThroughput n
                    (p\<lparr>throughputs := throughputs p @
                         [\<lparr> throughput = aggregateThroughput rows,
                            interval = CalculationInterval (config p),
                            endTime = endT \<rparr>]\<rparr>)
                    startT)"

definition initializeThroughput ::
  "(time \<Rightarrow> time \<Rightarrow> string + Throughput list) \<Rightarrow> processor \<Rightarrow> time \<Rightarrow> processor" where
  "initializeThroughput GetThroughput p endT =
     initializeThroughput_loop GetThroughput (nat (buckets p)) p endT"

section \<open>Weighted QPS\<close>

type_synonym serviceOperationQPS = "(string \<times> (string \<times> real list) list) list"

definition calculateQPS :: "int \<Rightarrow> duration \<Rightarrow> real" where
  "calculateQPS count_v interval_v =
     (let seconds = real_of_int interval_v / real_of_int second
      in real_of_int count_v / seconds)"

definition qps_operation_step ::
  "int \<Rightarrow> duration \<Rightarrow> string \<Rightarrow> serviceOperationQPS \<Rightarrow> string \<times> Throughput \<Rightarrow> serviceOperationQPS" where
  "qps_operation_step lookbackQPSCount interval_v svc q opt =
     (let op = fst opt;
          cur = (case nested_lookup q svc op of None \<Rightarrow> [] | Some l \<Rightarrow> l)
      in if int (length cur) \<ge> lookbackQPSCount then q
         else nested_update svc op (cur @ [calculateQPS (Count (snd opt)) interval_v]) q)"

definition qps_service_step ::
  "int \<Rightarrow> duration \<Rightarrow> serviceOperationQPS \<Rightarrow> string \<times> (string \<times> Throughput) list \<Rightarrow> serviceOperationQPS" where
  "qps_service_step lookbackQPSCount interval_v q svcops =
     foldl (qps_operation_step lookbackQPSCount interval_v (fst svcops))
       (ensure_service (fst svcops) q) (snd svcops)"

definition generateOperationQPS :: "processor \<Rightarrow> serviceOperationQPS" where
  "generateOperationQPS p =
     foldl (\<lambda>q bucket.
              foldl (qps_service_step (LookbackQPSCount (config p)) (interval bucket)) q
                (throughput bucket))
       [] (throughputs p)"

text \<open>
  \<^verbatim>\<open>calculateWeightedQPS\<close>. The weight vector comes from the weights cache; reading
  \<^verbatim>\<open>weights[i]\<close> beyond its length panics.
\<close>

definition calculateWeightedQPS :: "processor \<Rightarrow> real list \<Rightarrow> panic + real" where
  "calculateWeightedQPS p allQPS =
     (if length allQPS = 0 then Inr 0
      else let weights = weightsCache p (length allQPS)
           in if length weights < length allQPS then Inl WeightsIndexOutOfRange
              else Inr (foldl (\<lambda>acc i. acc + allQPS ! i * weights ! i) 0 [0..<length allQPS]))"

section \<open>Probability engine\<close>

definition floatEquals :: "real \<Rightarrow> real \<Rightarrow> bool" where
  "floatEquals a b = (\<bar>a - b\<bar> < 0.0000000001)"

definition prependServiceCache :: "processor \<Rightarrow> processor" where
  "prependServiceCache p =
     (let cs = [] # serviceCache p
      in if length cs > serviceCacheSize then p\<lparr>serviceCache := take serviceCacheSize cs\<rparr>
         else p\<lparr>serviceCache := cs\<rparr>)"

text \<open>
  \<^verbatim>\<open>usingAdaptiveSampling\<close>. \<open>truncateFloat\<close> (declared in another file of the package)
  is an argument.
\<close>

definition usingAdaptiveSampling ::
  "(real \<Rightarrow> string) \<Rightarrow> processor \<Rightarrow> real \<Rightarrow> string \<Rightarrow> string \<Rightarrow> serviceOperationThroughput \<Rightarrow> bool" where
  "usingAdaptiveSampling truncateFloat p probability_v service operation throughput_v =
     (if floatEquals probability_v (DefaultSamplingProbability (config p)) then True
      else
        (case nested_lookup throughput_v service operation of
           Some opThroughput \<Rightarrow> truncateFloat probability_v \<in> Probabilities opThroughput
         | None \<Rightarrow>
             if length (serviceCache p) > 1
             then (case cache_Get (serviceCache p ! 1) service operation of
                     Some e \<Rightarrow> usingAdapative e
                                \<and> probability e \<noteq> DefaultSamplingProbability (config p)
                   | None \<Rightarrow> False)
             else False))"

text \<open>The probability the processor currently holds for an operation, or the default.\<close>

definition oldProbability :: "processor \<Rightarrow> string \<Rightarrow> string \<Rightarrow> real" where
  "oldProbability p service operation =
     (case nested_lookup (probabilities p) service operation of
        Some probability_v \<Rightarrow> probability_v
      | None \<Rightarrow> DefaultSamplingProbability (config p))"

text \<open>
  \<^verbatim>\<open>calculateProbability\<close>. It returns the new probability and the processor with the
  entry written into \<^verbatim>\<open>serviceCache[0]\<close>; \<^verbatim>\<open>p.throughputs[0]\<close> and \<^verbatim>\<open>p.serviceCache[0]\<close>
  panic on an empty slice.
\<close>

definition calculateProbability ::
  "(real \<Rightarrow> string) \<Rightarrow> processor \<Rightarrow> string \<Rightarrow> string \<Rightarrow> real \<Rightarrow> panic + (real \<times> processor)" where
  "calculateProbability truncateFloat p service operation qps_v =
     (let oldP = oldProbability p service operation
      in case throughputs p of
           [] \<Rightarrow> Inl ThroughputsIndexOutOfRange
         | latest # _ \<Rightarrow>
            (let latestThroughput = throughput latest;
                 usingAdaptive = usingAdaptiveSampling truncateFloat p oldP service operation
                                   latestThroughput
             in case serviceCache p of
                  [] \<Rightarrow> Inl ServiceCacheIndexOutOfRange
                | c0 # cs \<Rightarrow>
                   (let p1 = p\<lparr>serviceCache :=
                               cache_Set c0 service operation
                                 \<lparr> probability = oldP, usingAdapative = usingAdaptive \<rparr> # cs\<rparr>;
                        targetQPS = GetTargetQPS (config p)
                    in if \<bar>qps_v - targetQPS\<bar> < GetQPSEquivalenceThreshold (config p)
                          \<or> \<not> usingAdaptive
                       then Inr (oldP, p1)
                       else
                         (let newProbability =
                                (if floatEquals qps_v 0 then oldP * 2.0
                                 else probabilityCalculator p targetQPS qps_v oldP)
                          in Inr (min maxSamplingProbability
                                    (max (MinSamplingProbability (config p)) newProbability),
                                  p1)))))"

fun fold_panic :: "('s \<Rightarrow> 'a \<Rightarrow> panic + 's) \<Rightarrow> 's \<Rightarrow> 'a list \<Rightarrow> panic + 's" where
  "fold_panic f s [] = Inr s"
| "fold_panic f s (x # xs) =
     (case f s x of
        Inl e \<Rightarrow> Inl e
      | Inr s' \<Rightarrow> fold_panic f s' xs)"

text \<open>
  The loops of \<^verbatim>\<open>calculateProbabilitiesAndQPS\<close>; the state of a pass is
  \<^verbatim>\<open>retProbabilities\<close>, \<^verbatim>\<open>retQPS\<close> and the processor.
\<close>

type_synonym calc_state = "ServiceOperationProbabilities \<times> ServiceOperationQPS \<times> processor"

definition calc_operation_step ::
  "(real \<Rightarrow> string) \<Rightarrow> string \<Rightarrow> calc_state \<Rightarrow> string \<times> real list \<Rightarrow> panic + calc_state" where
  "calc_operation_step truncateFloat svc st opq =
     (case st of (retProbabilities, retQPS, p) \<Rightarrow>
        (case calculateWeightedQPS p (snd opq) of
           Inl e \<Rightarrow> Inl e
         | Inr avgQPS \<Rightarrow>
            (case calculateProbability truncateFloat p svc (fst opq) avgQPS of
               Inl e \<Rightarrow> Inl e
             | Inr (v, p1) \<Rightarrow>
                 Inr (nested_update svc (fst opq) v retProbabilities,
                      nested_update svc (fst opq) avgQPS retQPS,
                      p1))))"

definition calc_service_step ::
  "(real \<Rightarrow> string) \<Rightarrow> calc_state \<Rightarrow> string \<times> (string \<times> real list) list \<Rightarrow> panic + calc_state" where
  "calc_service_step truncateFloat st svcq =
     (case st of (retProbabilities, retQPS, p) \<Rightarrow>
        fold_panic (calc_operation_step truncateFloat (fst svcq))
          (ensure_service (fst svcq) retProbabilities, ensure_service (fst svcq) retQPS, p)
          (snd svcq))"

definition calculateProbabilitiesAndQPS :: "(real \<Rightarrow> string) \<Rightarrow> processor \<Rightarrow> panic + calc_state" where
  "calculateProbabilitiesAndQPS truncateFloat p =
     (let p1 = prependServiceCache p;
          svcOpQPS = generateOperationQPS p1
      in fold_panic (calc_service_step truncateFloat) ([], [], p1) svcOpQPS)"

section \<open>Publishing\<close>

definition generateStrategyResponses :: "processor \<Rightarrow> processor" where
  "generateStrategyResponses p =
     p\<lparr>strategyResponses :=
         map (\<lambda>svcp.
                (fst svcp,
                 \<lparr> StrategyType = SamplingStrategyType_PROBABILISTIC,
                   OperationSampling = Some
                     \<lparr> opDefaultSamplingProbability = DefaultSamplingProbability (config p),
                       opDefaultLowerBoundTracesPerSecond = LowerBoundTracesPerSecond (config p),
                       PerOperationStrategies =
                         map (\<lambda>opp. \<lparr> strategyOperation = fst opp,
                                      ProbabilisticSampling = Some \<lparr> SamplingRate = snd opp \<rparr> \<rparr>)
                           (snd svcp) \<rparr> \<rparr>))
           (probabilities p)\<rparr>"

text \<open>
  \<^verbatim>\<open>loadProbabilities\<close>; the argument is the outcome of \<^verbatim>\<open>GetLatestProbabilities\<close>.
\<close>

definition loadProbabilities :: "processor \<Rightarrow> string + ServiceOperationProbabilities \<Rightarrow> processor" where
  "loadProbabilities p latest =
     (case latest of
        Inl err \<Rightarrow> p\<lparr>logged := logged p @ [''Failed to initialize probabilities'']\<rparr>
      | Inr probabilities_v \<Rightarrow> p\<lparr>probabilities := probabilities_v\<rparr>)"

text \<open>
  \<^verbatim>\<open>Start\<close>, up to the launch of the three loops; the argument is the outcome of the
  store's \<^verbatim>\<open>GetLatestProbabilities\<close>.
\<close>

definition Start :: "processor \<Rightarrow> string + ServiceOperationProbabilities \<Rightarrow> processor" where
  "Start p latest = generateStrategyResponses (loadProbabilities (setLeader p False) latest)"

section \<open>The calculation loop\<close>

text \<open>
  The statements of \<^verbatim>\<open>runCalculationLoop\<close> before its loop: \<open>now\<close> is the reading of
  the clock. The result is the processor and \<^verbatim>\<open>lastCheckedTime\<close>.
\<close>

definition calculationLoopStart ::
  "(time \<Rightarrow> time \<Rightarrow> string + Throughput list) \<Rightarrow> processor \<Rightarrow> time \<Rightarrow> processor \<times> time" where
  "calculationLoopStart GetThroughput p now =
     (let lastCheckedTime = now + Delay (config p) * -1
      in (initializeThroughput GetThroughput p lastCheckedTime, lastCheckedTime))"

text \<open>
  One tick of the loop of \<^verbatim>\<open>runCalculationLoop\<close> (the case \<^verbatim>\<open>ticker.C\<close>): \<open>now\<close> is the
  reading of the clock at the tick. The store write started by
  \<^verbatim>\<open>go p.saveProbabilitiesAndQPS()\<close> changes nothing in the processor.
\<close>

definition calculationTick ::
  "(real \<Rightarrow> string) \<Rightarrow> (time \<Rightarrow> time \<Rightarrow> string + Throughput list) \<Rightarrow> time
     \<Rightarrow> processor \<times> time \<Rightarrow> panic + (processor \<times> time)" where
  "calculationTick truncateFloat GetThroughput now st =
     (case st of (p, lastCheckedTime) \<Rightarrow>
       (let endT = now + Delay (config p) * -1;
            startT = lastCheckedTime
        in case GetThroughput startT endT of
             Inl err \<Rightarrow> Inr (p\<lparr>logged := logged p @ [getThroughputErrMsg]\<rparr>, lastCheckedTime)
           | Inr rows \<Rightarrow>
              (case prependThroughputBucket p
                      \<lparr> throughput = aggregateThroughput rows,
                        interval = endT - startT,
                        endTime = endT \<rparr> of
                 Inl e \<Rightarrow> Inl e
               | Inr p1 \<Rightarrow>
                   if isLeader p1
                   then (case calculateProbabilitiesAndQPS truncateFloat p1 of
                           Inl e \<Rightarrow> Inl e
                         | Inr (probabilities_v, qps_v, p2) \<Rightarrow>
                             Inr (generateStrategyResponses
                                    (p2\<lparr>probabilities := probabilities_v, qps := qps_v\<rparr>),
                                  endT))
                   else Inr (p1, endT))))"

section \<open>Invariants and scenario data\<close>

text \<open>
  The ring discipline on the state of the calculation loop (the processor and
  \<^verbatim>\<open>lastCheckedTime\<close>): at most \<^verbatim>\<open>buckets\<close> buckets, most recent first by \<^verbatim>\<open>endTime\<close>, none
  ending after \<^verbatim>\<open>lastCheckedTime\<close>.
\<close>

definition most_recent_first :: "throughputBucket list \<Rightarrow> bool" where
  "most_recent_first ts = sorted_wrt (\<lambda>a b. endTime b \<le> endTime a) ts"

definition ring_ok :: "processor \<Rightarrow> bool" where
  "ring_ok p = (int (length (throughputs p)) \<le> buckets p \<and> most_recent_first (throughputs p))"

definition not_after :: "time \<Rightarrow> throughputBucket list \<Rightarrow> bool" where
  "not_after t ts = list_all (\<lambda>b. endTime b \<le> t) ts"

definition not_before :: "time \<Rightarrow> throughputBucket list \<Rightarrow> bool" where
  "not_before t ts = list_all (\<lambda>b. t \<le> endTime b) ts"

text \<open>
  What a probability calculation leaves as it is: it writes only into the
  sampling-status history.
\<close>

definition unchanged_by_calculation :: "processor \<Rightarrow> processor \<Rightarrow> bool" where
  "unchanged_by_calculation p p' =
     (config p' = config p \<and> leader p' = leader p \<and> buckets p' = buckets p
      \<and> probabilities p' = probabilities p \<and> throughputs p' = throughputs p)"

text \<open>Every value of a probabilities map lies between the configured bounds.\<close>

definition within_bounds :: "ProcessorConfig \<Rightarrow> real \<Rightarrow> bool" where
  "within_bounds cfg v = (MinSamplingProbability cfg \<le> v \<and> v \<le> maxSamplingProbability)"

definition probabilities_within_bounds :: "ProcessorConfig \<Rightarrow> ServiceOperationProbabilities \<Rightarrow> bool" where
  "probabilities_within_bounds cfg m =
     list_all (\<lambda>svcp. list_all (\<lambda>opp. within_bounds cfg (snd opp)) (snd svcp)) m"

text \<open>
  Modelled from the spec: \<^verbatim>\<open>weightsCache.getWeights\<close> (declared elsewhere in the package).
  Section 4.3 asks for weights that do not increase and sum to 1 and names
  "exponential decay with a fixed base, then normalized" as an acceptable policy; the
  base here is one half.
\<close>

definition decayWeights :: "nat \<Rightarrow> real list" where
  "decayWeights n =
     (let raw = map (\<lambda>i. (1 / 2) ^ i) [0..<n]
      in map (\<lambda>x. x / sum_list raw) raw)"

text \<open>
  Modelled from the spec: the calculator of package \<^verbatim>\<open>calculationstrategy\<close> built by
  \<^verbatim>\<open>NewPercentageIncreaseCappedCalculator\<close>. Section 4.3, step 3: a corrective
  probability that no tick multiplies by more than \<open>1 + cap\<close> and that is the old
  probability when the rate is the target.
\<close>

definition percentageIncreaseCapped :: "real \<Rightarrow> real \<Rightarrow> real \<Rightarrow> real \<Rightarrow> real" where
  "percentageIncreaseCapped cap targetQPS curQPS prevProbability =
     (let factor = targetQPS / curQPS;
          newProbability = prevProbability * factor
      in if factor > 1 \<and> (newProbability - prevProbability) / prevProbability > cap
         then prevProbability + prevProbability * cap
         else newProbability)"

text \<open>
  Modelled from the spec: \<^verbatim>\<open>truncateFloat\<close> (declared in another file of the package).
  Section 9: probabilities are "truncated/formatted to 4 decimal digits"; this is the
  decimal rendering of a non-negative value with four digits after the point.
\<close>

definition digit :: "nat \<Rightarrow> char" where
  "digit d = ''0123456789'' ! (d mod 10)"

fun decimal :: "nat \<Rightarrow> string" where
  "decimal n = (if n < 10 then [digit n] else decimal (n div 10) @ [digit n])"

definition truncateFloat4 :: "real \<Rightarrow> string" where
  "truncateFloat4 v =
     (let k = nat \<lfloor>v * 10000\<rfloor>
      in decimal (k div 10000) @ ''.'' @
           [digit (k div 1000), digit (k div 100), digit (k div 10), digit k])"

text \<open>
  Scenario S1 of the specification: target 1.0, minimum and default probability 0.001,
  calculation interval 1 s, lookback interval 2 s, lookback count 2. The scenario
  leaves the equivalence threshold open; it is the argument. The delay is zero and the
  lease intervals are 5 s and 60 s.
\<close>

definition S1_config :: "real \<Rightarrow> ProcessorConfig" where
  "S1_config threshold =
     \<lparr> CalculationInterval = 1 * second,
       LookbackInterval = 2 * second,
       LookbackQPSCount = 2,
       Delay = 0,
       LeaderLeaseRefreshInterval = 5 * second,
       FollowerLeaseRefreshInterval = 60 * second,
       MinSamplingProbability = 0.001,
       DefaultSamplingProbability = 0.001,
       LowerBoundTracesPerSecond = 0,
       GetTargetQPS = 1.0,
       GetQPSEquivalenceThreshold = threshold \<rparr>"

text \<open>The row \<^verbatim>\<open>{service=A, operation=x, count=0}\<close> with a set of seen probabilities.\<close>

definition S1_row :: "string set \<Rightarrow> Throughput" where
  "S1_row seen = \<lparr> Service = ''A'', Operation = ''x'', Count = 0, Probabilities = seen \<rparr>"

definition S1_store :: "string set \<Rightarrow> time \<Rightarrow> time \<Rightarrow> string + Throughput list" where
  "S1_store seen startT endT = Inr [S1_row seen]"

definition emptyStore :: "time \<Rightarrow> time \<Rightarrow> string + Throughput list" where
  "emptyStore startT endT = Inr []"

definition lockGranted :: "string \<Rightarrow> string + bool" where
  "lockGranted name = Inr True"

definition lockDenied :: "string \<Rightarrow> string + bool" where
  "lockDenied name = Inr False"

definition lockFailed :: "string \<Rightarrow> string + bool" where
  "lockFailed name = Inl ''lock service unavailable''"

datatype failure = ConfigError config_error | Panic panic

text \<open>
  A processor from its construction to the first tick: started on a store whose latest
  probabilities are \<open>latest\<close>, made leader by a granted lock, with the calculation loop
  entered at time 0 on a store without throughput history.
\<close>

definition started ::
  "ProcessorConfig \<Rightarrow> (nat \<Rightarrow> real list) \<Rightarrow> (real \<Rightarrow> real \<Rightarrow> real \<Rightarrow> real)
     \<Rightarrow> string + ServiceOperationProbabilities \<Rightarrow> failure + (processor \<times> time)" where
  "started cfg weights calculator latest =
     (case NewProcessor cfg ''collector'' weights calculator of
        Inl e \<Rightarrow> Inl (ConfigError e)
      | Inr p \<Rightarrow>
          Inr (calculationLoopStart emptyStore (fst (acquireLock (Start p latest) lockGranted)) 0))"

definition S1_start ::
  "real \<Rightarrow> (nat \<Rightarrow> real list) \<Rightarrow> (real \<Rightarrow> real \<Rightarrow> real \<Rightarrow> real) \<Rightarrow> failure + (processor \<times> time)" where
  "S1_start threshold weights calculator = started (S1_config threshold) weights calculator (Inr [])"

definition and_then :: "failure + 'a \<Rightarrow> ('a \<Rightarrow> panic + 'b) \<Rightarrow> failure + 'b" where
  "and_then r f =
     (case r of
        Inl e \<Rightarrow> Inl e
      | Inr s \<Rightarrow> (case f s of Inl e \<Rightarrow> Inl (Panic e) | Inr s' \<Rightarrow> Inr s'))"

definition published :: "failure + (processor \<times> time) \<Rightarrow> string \<Rightarrow> string \<Rightarrow> real option" where
  "published r service operation =
     (case r of
        Inl e \<Rightarrow> None
      | Inr st \<Rightarrow> nested_lookup (probabilities (fst st)) service operation)"

text \<open>
  Three ticks of S1, one second apart; \<open>seen1\<close>, \<open>seen2\<close> and \<open>seen3\<close> are the sets of
  probabilities that the row of each tick carries.
\<close>

definition S1_tick1 ::
  "(real \<Rightarrow> string) \<Rightarrow> real \<Rightarrow> (nat \<Rightarrow> real list) \<Rightarrow> (real \<Rightarrow> real \<Rightarrow> real \<Rightarrow> real)
     \<Rightarrow> string set \<Rightarrow> failure + (processor \<times> time)" where
  "S1_tick1 truncateFloat threshold weights calculator seen1 =
     and_then (S1_start threshold weights calculator)
       (calculationTick truncateFloat (S1_store seen1) (1 * second))"

definition S1_tick2 ::
  "(real \<Rightarrow> string) \<Rightarrow> real \<Rightarrow> (nat \<Rightarrow> real list) \<Rightarrow> (real \<Rightarrow> real \<Rightarrow> real \<Rightarrow> real)
     \<Rightarrow> string set \<Rightarrow> string set \<Rightarrow> failure + (processor \<times> time)" where
  "S1_tick2 truncateFloat threshold weights calculator seen1 seen2 =
     and_then (S1_tick1 truncateFloat threshold weights calculator seen1)
       (calculationTick truncateFloat (S1_store seen2) (2 * second))"

definition S1_tick3 ::
  "(real \<Rightarrow> string) \<Rightarrow> real \<Rightarrow> (nat \<Rightarrow> real list) \<Rightarrow> (real \<Rightarrow> real \<Rightarrow> real \<Rightarrow> real)
     \<Rightarrow> string set \<Rightarrow> string set \<Rightarrow> string set \<Rightarrow> failure + (processor \<times> time)" where
  "S1_tick3 truncateFloat threshold weights calculator seen1 seen2 seen3 =
     and_then (S1_tick2 truncateFloat threshold weights calculator seen1 seen2)
       (calculationTick truncateFloat (S1_store seen3) (3 * second))"

text \<open>
  The states that S1 passes through when every tick classifies (A, x) as adaptive: the
  published probability \<open>v\<close>, the ring \<open>ts\<close> and the sampling-status history \<open>cs\<close>.
\<close>

definition S1_bucket :: "string set \<Rightarrow> time \<Rightarrow> throughputBucket" where
  "S1_bucket seen t =
     \<lparr> throughput = [(''A'', [(''x'', S1_row seen)])], interval = 1 * second, endTime = t \<rparr>"

definition S1_snapshot :: "real \<Rightarrow> samplingCache" where
  "S1_snapshot v = [(''A'', [(''x'', \<lparr> probability = v, usingAdapative = True \<rparr>)])]"

definition S1_processor ::
  "real \<Rightarrow> (nat \<Rightarrow> real list) \<Rightarrow> (real \<Rightarrow> real \<Rightarrow> real \<Rightarrow> real) \<Rightarrow> real
     \<Rightarrow> throughputBucket list \<Rightarrow> samplingCache list \<Rightarrow> processor" where
  "S1_processor threshold weights calculator v ts cs =
     \<lparr> config = S1_config threshold,
       leader = True,
       hostname = ''collector'',
       buckets = 2,
       probabilities = [(''A'', [(''x'', v)])],
       qps = [(''A'', [(''x'', 0)])],
       throughputs = ts,
       strategyResponses =
         [(''A'', \<lparr> StrategyType = SamplingStrategyType_PROBABILISTIC,
                    OperationSampling = Some
                      \<lparr> opDefaultSamplingProbability = 0.001,
                        opDefaultLowerBoundTracesPerSecond = 0,
                        PerOperationStrategies =
                          [\<lparr> strategyOperation = ''x'',
                             ProbabilisticSampling = Some \<lparr> SamplingRate = v \<rparr> \<rparr>] \<rparr> \<rparr>)],
       weightsCache = weights,
       probabilityCalculator = calculator,
       followerProbabilityInterval = defaultFollowerProbabilityInterval,
       serviceCache = cs,
       logged = [] \<rparr>"

definition S1_initial ::
  "real \<Rightarrow> (nat \<Rightarrow> real list) \<Rightarrow> (real \<Rightarrow> real \<Rightarrow> real \<Rightarrow> real) \<Rightarrow> processor" where
  "S1_initial threshold weights calculator =
     \<lparr> config = S1_config threshold,
       leader = True,
       hostname = ''collector'',
       buckets = 2,
       probabilities = [],
       qps = [],
       throughputs = [],
       strategyResponses = [],
       weightsCache = weights,
       probabilityCalculator = calculator,
       followerProbabilityInterval = defaultFollowerProbabilityInterval,
       serviceCache = [],
       logged = [] \<rparr>"

text \<open>
  A processor in mid-run for the examples below: built for S1 with threshold 0.01, one
  bucket in the ring, probability 0.3 published for (A, x).
\<close>

definition example_processor :: processor where
  "example_processor =
     \<lparr> config = S1_config 0.01,
       leader = True,
       hostname = ''collector'',
       buckets = 2,
       probabilities = [(''A'', [(''x'', 0.3)])],
       qps = [(''A'', [(''x'', 1.005)])],
       throughputs = [\<lparr> throughput = [(''A'', [(''x'', S1_row {''0.3000''})])],
                         interval = 1 * second, endTime = 1 * second \<rparr>],
       strategyResponses =
         [(''A'', \<lparr> StrategyType = SamplingStrategyType_PROBABILISTIC,
                    OperationSampling = Some
                      \<lparr> opDefaultSamplingProbability = 0.001,
                        opDefaultLowerBoundTracesPerSecond = 0,
                        PerOperationStrategies =
                          [\<lparr> strategyOperation = ''x'',
                             ProbabilisticSampling = Some \<lparr> SamplingRate = 0.3 \<rparr> \<rparr>] \<rparr> \<rparr>)],
       weightsCache = decayWeights,
       probabilityCalculator = percentageIncreaseCapped 1.0,
       followerProbabilityInterval = defaultFollowerProbabilityInterval,
       serviceCache = [[]],
       logged = [] \<rparr>"

section \<open>Auxiliary facts\<close>

lemmas cfg_simps = S1_config_def second_def

subsection \<open>Association lists\<close>

lemma set_update_subset: "set (AList.update k v al) \<subseteq> insert (k, v) (set al)"
  by (induction al) auto

lemma list_all_update:
  "list_all P al \<Longrightarrow> P (k, v) \<Longrightarrow> list_all P (AList.update k v al)"
  using set_update_subset [of k v al] by (auto simp: list_all_iff)

lemma list_all_inner_map:
  "list_all (\<lambda>svcp. list_all Q (snd svcp)) m \<Longrightarrow> list_all Q (inner_map m service)"
proof (cases "map_of m service")
  case None
  then show ?thesis by (simp add: inner_map_def)
next
  case (Some ops)
  assume all: "list_all (\<lambda>svcp. list_all Q (snd svcp)) m"
  from Some have "(service, ops) \<in> set m" by (rule map_of_SomeD)
  with all have "list_all Q ops" by (fastforce simp: list_all_iff)
  with Some show ?thesis by (simp add: inner_map_def)
qed

subsection \<open>Folding with panics\<close>

lemma fold_panic_invariant:
  assumes "fold_panic f s xs = Inr s'" and "I s"
    and "\<And>s x s'. I s \<Longrightarrow> f s x = Inr s' \<Longrightarrow> I s'"
  shows "I s'"
  using assms(1,2)
proof (induction xs arbitrary: s)
  case Nil
  then show ?case by simp
next
  case (Cons x xs)
  then show ?case using assms(3) by (auto split: sum.splits)
qed

lemma fold_panic_never:
  assumes "I s"
    and "\<And>s x s'. I s \<Longrightarrow> f s x = Inr s' \<Longrightarrow> I s'"
    and "\<And>s x. I s \<Longrightarrow> f s x \<noteq> Inl e"
  shows "fold_panic f s xs \<noteq> Inl e"
  using assms(1)
proof (induction xs arbitrary: s)
  case Nil
  then show ?case by simp
next
  case (Cons x xs)
  show ?case
  proof (cases "f s x")
    case (Inl e')
    with assms(3) [OF Cons.prems, of x] show ?thesis by simp
  next
    case (Inr s1)
    with assms(2) [OF Cons.prems Inr] Cons.IH show ?thesis by simp
  qed
qed

subsection \<open>calculateProbability\<close>

lemma calculateProbability_unchanged:
  "calculateProbability truncateFloat p service operation qps_v = Inr (v, p')
     \<Longrightarrow> unchanged_by_calculation p p'"
  by (auto simp: calculateProbability_def unchanged_by_calculation_def Let_def
      split: list.splits if_splits)

lemma calculateProbability_value:
  assumes "calculateProbability truncateFloat p service operation qps_v = Inr (v, p')"
  shows "v = oldProbability p service operation
       \<or> v = min maxSamplingProbability (max (MinSamplingProbability (config p))
                (if floatEquals qps_v 0 then oldProbability p service operation * 2.0
                 else probabilityCalculator p (GetTargetQPS (config p)) qps_v
                        (oldProbability p service operation)))"
  using assms
  by (auto simp: calculateProbability_def Let_def split: list.splits if_splits)

lemma calculateProbability_within_bounds:
  assumes "calculateProbability truncateFloat p service operation qps_v = Inr (v, p')"
    and "MinSamplingProbability (config p) \<le> 1"
    and "within_bounds (config p) (oldProbability p service operation)"
  shows "within_bounds (config p) v"
  using calculateProbability_value [OF assms(1)] assms(2,3)
  by (auto simp: within_bounds_def maxSamplingProbability_def)

lemma calculateProbability_ring_nonempty:
  "throughputs p \<noteq> [] \<Longrightarrow>
     calculateProbability truncateFloat p service operation qps_v \<noteq> Inl ThroughputsIndexOutOfRange"
  by (auto simp: calculateProbability_def Let_def split: list.splits if_splits)

lemma calculateProbability_cache_nonempty:
  "serviceCache p \<noteq> [] \<Longrightarrow> throughputs p \<noteq> [] \<Longrightarrow>
     \<exists>v p'. calculateProbability truncateFloat p service operation qps_v = Inr (v, p')
       \<and> serviceCache p' \<noteq> []"
  by (auto simp: calculateProbability_def Let_def split: list.splits if_splits)

lemma lookup_within_bounds:
  "probabilities_within_bounds cfg m \<Longrightarrow> nested_lookup m service operation = Some v
     \<Longrightarrow> within_bounds cfg v"
  by (fastforce simp: probabilities_within_bounds_def nested_lookup_def list_all_iff
      split: option.splits dest!: map_of_SomeD)

lemma oldProbability_within_bounds:
  "probabilities_within_bounds (config p) (probabilities p)
     \<Longrightarrow> within_bounds (config p) (DefaultSamplingProbability (config p))
     \<Longrightarrow> within_bounds (config p) (oldProbability p service operation)"
  by (auto simp: oldProbability_def split: option.splits dest: lookup_within_bounds)

lemma nested_update_within_bounds:
  "probabilities_within_bounds cfg m \<Longrightarrow> within_bounds cfg v
     \<Longrightarrow> probabilities_within_bounds cfg (nested_update service operation v m)"
  unfolding probabilities_within_bounds_def nested_update_def
  by (intro list_all_update) (auto intro: list_all_update list_all_inner_map)

lemma ensure_service_within_bounds:
  "probabilities_within_bounds cfg m \<Longrightarrow> probabilities_within_bounds cfg (ensure_service service m)"
  unfolding probabilities_within_bounds_def ensure_service_def
  by (auto intro: list_all_update)


subsection \<open>The loops of calculateProbabilitiesAndQPS\<close>

lemma unchanged_by_calculation_refl: "unchanged_by_calculation p p"
  by (simp add: unchanged_by_calculation_def)

lemma unchanged_by_calculation_trans:
  "unchanged_by_calculation p p1 \<Longrightarrow> unchanged_by_calculation p1 p2 \<Longrightarrow> unchanged_by_calculation p p2"
  by (simp add: unchanged_by_calculation_def)

lemma calc_operation_step_unchanged:
  assumes "calc_operation_step truncateFloat svc st opq = Inr st'"
    and "unchanged_by_calculation p0 (snd (snd st))"
  shows "unchanged_by_calculation p0 (snd (snd st'))"
  using assms
  by (auto simp: calc_operation_step_def split: prod.splits sum.splits
      dest!: calculateProbability_unchanged intro: unchanged_by_calculation_trans)

lemma calc_operation_step_bounds:
  assumes step: "calc_operation_step truncateFloat svc st opq = Inr st'"
    and un: "unchanged_by_calculation p0 (snd (snd st))"
    and ret: "probabilities_within_bounds (config p0) (fst st)"
    and cur: "probabilities_within_bounds (config p0) (probabilities p0)"
    and dflt: "within_bounds (config p0) (DefaultSamplingProbability (config p0))"
  shows "probabilities_within_bounds (config p0) (fst st')"
proof -
  obtain retP retQ p where st: "st = (retP, retQ, p)" by (cases st) auto
  from step st obtain avg v p1 where
    calc: "calculateProbability truncateFloat p svc (fst opq) avg = Inr (v, p1)"
    and st': "st' = (nested_update svc (fst opq) v retP, nested_update svc (fst opq) avg retQ, p1)"
    by (auto simp: calc_operation_step_def split: sum.splits)
  from un st have same: "config p = config p0" "probabilities p = probabilities p0"
    by (simp_all add: unchanged_by_calculation_def)
  from dflt have min1: "MinSamplingProbability (config p) \<le> 1"
    by (simp add: within_bounds_def maxSamplingProbability_def same)
  have "within_bounds (config p) (oldProbability p svc (fst opq))"
    using cur dflt by (intro oldProbability_within_bounds) (simp_all add: same)
  with calc min1 have "within_bounds (config p0) v"
    using calculateProbability_within_bounds [OF calc] by (simp add: same)
  with ret st st' show ?thesis by (simp add: nested_update_within_bounds)
qed

lemma calc_service_step_invariant:
  assumes step: "calc_service_step truncateFloat st svcq = Inr st'"
    and un: "unchanged_by_calculation p0 (snd (snd st))"
    and ret: "probabilities_within_bounds (config p0) (fst st)"
    and cur: "probabilities_within_bounds (config p0) (probabilities p0)"
    and dflt: "within_bounds (config p0) (DefaultSamplingProbability (config p0))"
  shows "unchanged_by_calculation p0 (snd (snd st'))
       \<and> probabilities_within_bounds (config p0) (fst st')"
proof -
  obtain retP retQ p where st: "st = (retP, retQ, p)" by (cases st) auto
  let ?I = "\<lambda>s :: calc_state. unchanged_by_calculation p0 (snd (snd s))
                \<and> probabilities_within_bounds (config p0) (fst s)"
  from step st have fold:
    "fold_panic (calc_operation_step truncateFloat (fst svcq))
       (ensure_service (fst svcq) retP, ensure_service (fst svcq) retQ, p) (snd svcq) = Inr st'"
    by (simp add: calc_service_step_def)
  have init: "?I (ensure_service (fst svcq) retP, ensure_service (fst svcq) retQ, p)"
    using un ret st by (simp add: ensure_service_within_bounds)
  show ?thesis
    by (rule fold_panic_invariant [where I = ?I, OF fold init])
       (blast intro: calc_operation_step_unchanged calc_operation_step_bounds [OF _ _ _ cur dflt])
qed

lemma prependServiceCache_unchanged: "unchanged_by_calculation p (prependServiceCache p)"
  by (simp add: prependServiceCache_def unchanged_by_calculation_def Let_def)

lemma calculateProbabilitiesAndQPS_invariant:
  assumes calc: "calculateProbabilitiesAndQPS truncateFloat p = Inr (retP, retQ, p')"
    and cur: "probabilities_within_bounds (config p) (probabilities p)"
    and dflt: "within_bounds (config p) (DefaultSamplingProbability (config p))"
  shows "unchanged_by_calculation p p' \<and> probabilities_within_bounds (config p) retP"
proof -
  let ?I = "\<lambda>s :: calc_state. unchanged_by_calculation p (snd (snd s))
                \<and> probabilities_within_bounds (config p) (fst s)"
  from calc have fold:
    "fold_panic (calc_service_step truncateFloat) ([], [], prependServiceCache p)
       (generateOperationQPS (prependServiceCache p)) = Inr (retP, retQ, p')"
    by (simp add: calculateProbabilitiesAndQPS_def Let_def)
  have init: "?I ([], [], prependServiceCache p)"
    by (simp add: prependServiceCache_unchanged probabilities_within_bounds_def)
  have "?I (retP, retQ, p')"
    by (rule fold_panic_invariant [where I = ?I, OF fold init])
       (blast dest: calc_service_step_invariant [OF _ _ _ cur dflt])
  then show ?thesis by simp
qed

lemma calculateProbabilitiesAndQPS_unchanged:
  assumes calc: "calculateProbabilitiesAndQPS truncateFloat p = Inr (retP, retQ, p')"
  shows "unchanged_by_calculation p p'"
proof -
  let ?I = "\<lambda>s :: calc_state. unchanged_by_calculation p (snd (snd s))"
  from calc have fold:
    "fold_panic (calc_service_step truncateFloat) ([], [], prependServiceCache p)
       (generateOperationQPS (prependServiceCache p)) = Inr (retP, retQ, p')"
    by (simp add: calculateProbabilitiesAndQPS_def Let_def)
  have init: "?I ([], [], prependServiceCache p)"
    by (simp add: prependServiceCache_unchanged)
  have inner: "\<And>s x s'. ?I s \<Longrightarrow> calc_service_step truncateFloat s x = Inr s' \<Longrightarrow> ?I s'"
  proof -
    fix s x s'
    assume I: "?I s" and step: "calc_service_step truncateFloat s x = Inr s'"
    obtain a b c where s: "s = (a, b, c)" by (cases s) auto
    from step s have f: "fold_panic (calc_operation_step truncateFloat (fst x))
       (ensure_service (fst x) a, ensure_service (fst x) b, c) (snd x) = Inr s'"
      by (simp add: calc_service_step_def)
    show "?I s'"
      by (rule fold_panic_invariant [where I = ?I, OF f])
         (use I s in \<open>auto intro: calc_operation_step_unchanged\<close>)
  qed
  have "?I (retP, retQ, p')"
    by (rule fold_panic_invariant [where I = ?I, OF fold init]) (rule inner)
  then show ?thesis by simp
qed

lemma calculateProbabilitiesAndQPS_ring_nonempty:
  assumes "throughputs p \<noteq> []"
  shows "calculateProbabilitiesAndQPS truncateFloat p \<noteq> Inl ThroughputsIndexOutOfRange"
proof -
  let ?I = "\<lambda>s :: calc_state. unchanged_by_calculation p (snd (snd s))"
  have op_inv: "\<And>svc s x s'. ?I s \<Longrightarrow> calc_operation_step truncateFloat svc s x = Inr s' \<Longrightarrow> ?I s'"
    by (blast intro: calc_operation_step_unchanged)
  have op_never: "\<And>svc s x. ?I s \<Longrightarrow>
      calc_operation_step truncateFloat svc s x \<noteq> Inl ThroughputsIndexOutOfRange"
  proof -
    fix svc s x
    assume I: "?I s"
    obtain a b c where s: "s = (a, b, c)" by (cases s) auto
    from I s assms have "throughputs c \<noteq> []" by (simp add: unchanged_by_calculation_def)
    then show "calc_operation_step truncateFloat svc s x \<noteq> Inl ThroughputsIndexOutOfRange"
      using s
      by (auto simp: calc_operation_step_def calculateWeightedQPS_def Let_def
          split: sum.splits if_splits dest: calculateProbability_ring_nonempty)
  qed
  have svc_inv: "\<And>s x s'. ?I s \<Longrightarrow> calc_service_step truncateFloat s x = Inr s' \<Longrightarrow> ?I s'"
  proof -
    fix s x s'
    assume I: "?I s" and step: "calc_service_step truncateFloat s x = Inr s'"
    obtain a b c where s: "s = (a, b, c)" by (cases s) auto
    from step s have f: "fold_panic (calc_operation_step truncateFloat (fst x))
       (ensure_service (fst x) a, ensure_service (fst x) b, c) (snd x) = Inr s'"
      by (simp add: calc_service_step_def)
    show "?I s'"
      by (rule fold_panic_invariant [where I = ?I, OF f]) (use I s op_inv in auto)
  qed
  have svc_never: "\<And>s x. ?I s \<Longrightarrow>
      calc_service_step truncateFloat s x \<noteq> Inl ThroughputsIndexOutOfRange"
  proof -
    fix s x
    assume I: "?I s"
    obtain a b c where s: "s = (a, b, c)" by (cases s) auto
    have "fold_panic (calc_operation_step truncateFloat (fst x))
       (ensure_service (fst x) a, ensure_service (fst x) b, c) (snd x)
         \<noteq> Inl ThroughputsIndexOutOfRange"
      by (rule fold_panic_never [where I = ?I]) (use I s op_inv op_never in auto)
    then show "calc_service_step truncateFloat s x \<noteq> Inl ThroughputsIndexOutOfRange"
      using s by (simp add: calc_service_step_def)
  qed
  have "fold_panic (calc_service_step truncateFloat) ([], [], prependServiceCache p)
       (generateOperationQPS (prependServiceCache p)) \<noteq> Inl ThroughputsIndexOutOfRange"
    by (rule fold_panic_never [where I = ?I])
       (use svc_inv svc_never in \<open>auto simp: prependServiceCache_unchanged\<close>)
  then show ?thesis by (simp add: calculateProbabilitiesAndQPS_def Let_def)
qed


subsection \<open>The throughput ring\<close>

lemma most_recent_first_Cons:
  "most_recent_first (b # ts) \<longleftrightarrow> not_after (endTime b) ts \<and> most_recent_first ts"
  by (auto simp: most_recent_first_def not_after_def list_all_iff)

lemma most_recent_first_take: "most_recent_first ts \<Longrightarrow> most_recent_first (take n ts)"
  by (simp add: most_recent_first_def)

lemma most_recent_first_snoc:
  "most_recent_first ts \<Longrightarrow> not_before (endTime b) ts \<Longrightarrow> most_recent_first (ts @ [b])"
  by (auto simp: most_recent_first_def not_before_def list_all_iff sorted_wrt_append)

lemma not_after_take: "not_after t ts \<Longrightarrow> not_after t (take n ts)"
  by (auto simp: not_after_def list_all_iff dest: in_set_takeD)

lemma not_after_mono: "not_after t ts \<Longrightarrow> t \<le> t' \<Longrightarrow> not_after t' ts"
  by (auto simp: not_after_def list_all_iff)

lemma not_before_mono: "not_before t ts \<Longrightarrow> t' \<le> t \<Longrightarrow> not_before t' ts"
  by (auto simp: not_before_def list_all_iff)

lemma prependThroughputBucket_ring:
  assumes "0 \<le> buckets p" and "most_recent_first (throughputs p)"
    and "not_after (endTime bucket) (throughputs p)"
  shows "\<exists>p'. prependThroughputBucket p bucket = Inr p'
           \<and> throughputs p' = take (nat (buckets p)) (bucket # throughputs p)
           \<and> buckets p' = buckets p \<and> config p' = config p \<and> leader p' = leader p
           \<and> probabilities p' = probabilities p \<and> ring_ok p'"
proof -
  have mrf: "most_recent_first (bucket # throughputs p)"
    using assms(2,3) by (simp add: most_recent_first_Cons)
  show ?thesis
  proof (cases "int (length (bucket # throughputs p)) > buckets p")
    case True
    then show ?thesis
      using assms(1) mrf
      by (simp add: prependThroughputBucket_def Let_def ring_ok_def most_recent_first_take
          del: take_Suc_Cons)
  next
    case False
    then have "take (nat (buckets p)) (bucket # throughputs p) = bucket # throughputs p"
      by simp
    with False show ?thesis
      using mrf by (simp add: prependThroughputBucket_def Let_def ring_ok_def del: take_Suc_Cons)
  qed
qed

lemma initializeThroughput_loop_ring:
  assumes "int (length (throughputs p)) + int n \<le> buckets p"
    and "most_recent_first (throughputs p)"
    and "not_before endT (throughputs p)"
    and "0 \<le> CalculationInterval (config p)"
  shows "ring_ok (initializeThroughput_loop GetThroughput n p endT)"
  using assms
proof (induction n arbitrary: p endT)
  case 0
  then show ?case by (simp add: ring_ok_def)
next
  case (Suc n)
  let ?startT = "endT + CalculationInterval (config p) * -1"
  show ?case
  proof (cases "GetThroughput ?startT endT")
    case (Inl err)
    with Suc.prems show ?thesis by (simp add: ring_ok_def Let_def)
  next
    case (Inr rows)
    show ?thesis
    proof (cases "length rows = 0")
      case True
      with Inr Suc.prems show ?thesis by (simp add: ring_ok_def Let_def)
    next
      case False
      let ?b = "\<lparr> throughput = aggregateThroughput rows,
                  interval = CalculationInterval (config p), endTime = endT \<rparr>"
      let ?p = "p\<lparr>throughputs := throughputs p @ [?b]\<rparr>"
      have "ring_ok (initializeThroughput_loop GetThroughput n ?p ?startT)"
      proof (rule Suc.IH)
        show "int (length (throughputs ?p)) + int n \<le> buckets ?p"
          using Suc.prems(1) by simp
        show "most_recent_first (throughputs ?p)"
          using Suc.prems(2,3) by (simp add: most_recent_first_snoc)
        show "not_before ?startT (throughputs ?p)"
          using Suc.prems(3,4) by (auto simp: not_before_def list_all_iff)
        show "0 \<le> CalculationInterval (config ?p)"
          using Suc.prems(4) by simp
      qed
      with Inr False show ?thesis by (simp add: Let_def)
    qed
  qed
qed

lemma initializeThroughput_loop_not_after:
  assumes "not_after t (throughputs p)" and "endT \<le> t"
    and "0 \<le> CalculationInterval (config p)"
  shows "not_after t (throughputs (initializeThroughput_loop GetThroughput n p endT))"
  using assms
proof (induction n arbitrary: p endT)
  case 0
  then show ?case by simp
next
  case (Suc n)
  let ?startT = "endT + CalculationInterval (config p) * -1"
  show ?case
  proof (cases "GetThroughput ?startT endT")
    case (Inl err)
    with Suc.prems show ?thesis by (simp add: Let_def)
  next
    case (Inr rows)
    show ?thesis
    proof (cases "length rows = 0")
      case True
      with Inr Suc.prems show ?thesis by (simp add: Let_def)
    next
      case False
      let ?b = "\<lparr> throughput = aggregateThroughput rows,
                  interval = CalculationInterval (config p), endTime = endT \<rparr>"
      let ?p = "p\<lparr>throughputs := throughputs p @ [?b]\<rparr>"
      have "not_after t (throughputs (initializeThroughput_loop GetThroughput n ?p ?startT))"
      proof (rule Suc.IH)
        show "not_after t (throughputs ?p)"
          using Suc.prems(1,2) by (simp add: not_after_def)
        show "?startT \<le> t" using Suc.prems(2,3) by simp
        show "0 \<le> CalculationInterval (config ?p)" using Suc.prems(3) by simp
      qed
      with Inr False show ?thesis by (simp add: Let_def)
    qed
  qed
qed

lemma calculationLoopStart_ring:
  assumes "throughputs p = []" and "0 \<le> buckets p" and "0 \<le> CalculationInterval (config p)"
  shows "ring_ok (fst (calculationLoopStart GetThroughput p now))
       \<and> not_after (snd (calculationLoopStart GetThroughput p now))
           (throughputs (fst (calculationLoopStart GetThroughput p now)))"
proof -
  have "ring_ok (initializeThroughput_loop GetThroughput (nat (buckets p)) p
                   (now + Delay (config p) * -1))"
    using assms
    by (intro initializeThroughput_loop_ring)
       (simp_all add: most_recent_first_def not_before_def)
  moreover
  have "not_after (now + Delay (config p) * -1)
          (throughputs (initializeThroughput_loop GetThroughput (nat (buckets p)) p
                   (now + Delay (config p) * -1)))"
    using assms by (intro initializeThroughput_loop_not_after) (simp_all add: not_after_def)
  ultimately show ?thesis
    by (simp add: calculationLoopStart_def initializeThroughput_def Let_def)
qed

lemma generateStrategyResponses_fields:
  "throughputs (generateStrategyResponses p) = throughputs p"
  "buckets (generateStrategyResponses p) = buckets p"
  "config (generateStrategyResponses p) = config p"
  "probabilities (generateStrategyResponses p) = probabilities p"
  "leader (generateStrategyResponses p) = leader p"
  by (simp_all add: generateStrategyResponses_def)

lemma calculationTick_cases:
  assumes tick: "calculationTick truncateFloat GetThroughput now (p, lastCheckedTime) = Inr (p', t')"
  obtains (store_error) err where
      "GetThroughput lastCheckedTime (now + Delay (config p) * -1) = Inl err"
      "p' = p\<lparr>logged := logged p @ [getThroughputErrMsg]\<rparr>" "t' = lastCheckedTime"
  | (follower) rows p1 where
      "GetThroughput lastCheckedTime (now + Delay (config p) * -1) = Inr rows"
      "prependThroughputBucket p
         \<lparr> throughput = aggregateThroughput rows,
           interval = now + Delay (config p) * -1 - lastCheckedTime,
           endTime = now + Delay (config p) * -1 \<rparr> = Inr p1"
      "\<not> leader p1" "p' = p1" "t' = now + Delay (config p) * -1"
  | (leader) rows p1 retP retQ p2 where
      "GetThroughput lastCheckedTime (now + Delay (config p) * -1) = Inr rows"
      "prependThroughputBucket p
         \<lparr> throughput = aggregateThroughput rows,
           interval = now + Delay (config p) * -1 - lastCheckedTime,
           endTime = now + Delay (config p) * -1 \<rparr> = Inr p1"
      "leader p1" "calculateProbabilitiesAndQPS truncateFloat p1 = Inr (retP, retQ, p2)"
      "p' = generateStrategyResponses (p2\<lparr>probabilities := retP, qps := retQ\<rparr>)"
      "t' = now + Delay (config p) * -1"
proof -
  let ?endT = "now + Delay (config p) * -1"
  let ?b = "\<lambda>rows. \<lparr> throughput = aggregateThroughput rows,
             interval = ?endT - lastCheckedTime, endTime = ?endT \<rparr>"
  show thesis
  proof (cases "GetThroughput lastCheckedTime ?endT")
    case (Inl err)
    with tick have "p' = p\<lparr>logged := logged p @ [getThroughputErrMsg]\<rparr>" "t' = lastCheckedTime"
      by (simp_all add: calculationTick_def Let_def)
    with Inl show thesis by (rule store_error)
  next
    case rows: (Inr rows)
    show thesis
    proof (cases "prependThroughputBucket p (?b rows)")
      case (Inl e)
      with tick rows show thesis by (simp add: calculationTick_def Let_def)
    next
      case p1: (Inr p1)
      show thesis
      proof (cases "leader p1")
        case False
        with tick rows p1 have "p' = p1" "t' = ?endT"
          by (simp_all add: calculationTick_def Let_def isLeader_def)
        with rows p1 False show thesis by (rule follower)
      next
        case True
        show thesis
        proof (cases "calculateProbabilitiesAndQPS truncateFloat p1")
          case (Inl e)
          with tick rows p1 True show thesis
            by (simp add: calculationTick_def Let_def isLeader_def)
        next
          case (Inr st)
          obtain retP retQ p2 where st: "st = (retP, retQ, p2)" by (cases st) auto
          with tick rows p1 True Inr
          have "p' = generateStrategyResponses (p2\<lparr>probabilities := retP, qps := retQ\<rparr>)"
            "t' = ?endT"
            by (simp_all add: calculationTick_def Let_def isLeader_def)
          with rows p1 True Inr [unfolded st] show thesis by (rule leader)
        qed
      qed
    qed
  qed
qed

lemma calculationTick_ring:
  assumes ok: "ring_ok p" and na: "not_after lastCheckedTime (throughputs p)"
    and clock: "lastCheckedTime \<le> now - Delay (config p)"
    and tick: "calculationTick truncateFloat GetThroughput now (p, lastCheckedTime) = Inr (p', t')"
  shows "ring_ok p' \<and> not_after t' (throughputs p') \<and> buckets p' = buckets p"
proof -
  let ?endT = "now + Delay (config p) * -1"
  let ?b = "\<lambda>rows. \<lparr> throughput = aggregateThroughput rows,
             interval = ?endT - lastCheckedTime, endTime = ?endT \<rparr>"
  from ok have b0: "0 \<le> buckets p" and mrf: "most_recent_first (throughputs p)"
    by (auto simp: ring_ok_def)
  from na clock have na': "not_after ?endT (throughputs p)"
    by (intro not_after_mono [OF na]) simp
  have prep: "\<And>rows p1. prependThroughputBucket p (?b rows) = Inr p1 \<Longrightarrow>
                ring_ok p1 \<and> not_after ?endT (throughputs p1) \<and> buckets p1 = buckets p"
  proof -
    fix rows p1
    assume eq: "prependThroughputBucket p (?b rows) = Inr p1"
    from prependThroughputBucket_ring [OF b0 mrf, of "?b rows"] na' eq
    have ts: "throughputs p1 = take (nat (buckets p)) (?b rows # throughputs p)"
      and rest: "buckets p1 = buckets p" "ring_ok p1"
      by auto
    have "not_after ?endT (?b rows # throughputs p)"
      using na' by (simp add: not_after_def)
    then have "not_after ?endT (throughputs p1)"
      unfolding ts by (rule not_after_take)
    with rest show "ring_ok p1 \<and> not_after ?endT (throughputs p1) \<and> buckets p1 = buckets p"
      by simp
  qed
  from tick show ?thesis
  proof (cases rule: calculationTick_cases)
    case (store_error err)
    with ok na show ?thesis by (simp add: ring_ok_def)
  next
    case (follower rows p1)
    with prep [OF follower(2)] show ?thesis by simp
  next
    case (leader rows p1 retP retQ p2)
    from calculateProbabilitiesAndQPS_unchanged [OF leader(4)]
    have "throughputs p2 = throughputs p1" "buckets p2 = buckets p1"
      by (simp_all add: unchanged_by_calculation_def)
    with prep [OF leader(2)] leader(5,6) show ?thesis
      by (simp add: ring_ok_def generateStrategyResponses_fields)
  qed
qed


subsection \<open>Construction and the fields a tick leaves alone\<close>

lemma wrap64_id: "0 \<le> x \<Longrightarrow> x < 2 ^ 63 \<Longrightarrow> wrap64 x = x"
  by (simp add: wrap64_def)

lemma NewProcessor_buckets:
  assumes new: "NewProcessor cfg host weights calculator = Inr p"
    and pos: "0 < CalculationInterval cfg" and range: "LookbackInterval cfg < 2 ^ 63"
  shows "buckets p = LookbackInterval cfg div CalculationInterval cfg \<and> 0 < buckets p
       \<and> throughputs p = [] \<and> probabilities p = [] \<and> config p = cfg"
proof -
  from new have le: "CalculationInterval cfg \<le> LookbackInterval cfg"
    by (auto simp: NewProcessor_def split: if_splits)
  with pos have lpos: "0 < LookbackInterval cfg" by simp
  have sd: "LookbackInterval cfg sdiv CalculationInterval cfg
              = LookbackInterval cfg div CalculationInterval cfg"
    using pos lpos by (simp add: signed_divide_int_def)
  have q1: "0 < LookbackInterval cfg div CalculationInterval cfg"
    using pos le by (simp add: pos_imp_zdiv_pos_iff)
  have "LookbackInterval cfg div CalculationInterval cfg \<le> LookbackInterval cfg"
    using pos lpos by (intro zdiv_mono2 [where b' = 1, simplified]) simp_all
  with range have q2: "LookbackInterval cfg div CalculationInterval cfg < 2 ^ 63" by simp
  from new have "buckets p = wrap64 (LookbackInterval cfg sdiv CalculationInterval cfg)"
    and rest: "throughputs p = []" "probabilities p = []" "config p = cfg"
    by (auto simp: NewProcessor_def split: if_splits)
  with sd q1 q2 show ?thesis by (simp add: wrap64_id)
qed

lemma prependThroughputBucket_fields:
  assumes "prependThroughputBucket p bucket = Inr p1"
  shows "config p1 = config p \<and> buckets p1 = buckets p \<and> leader p1 = leader p
       \<and> probabilities p1 = probabilities p
       \<and> throughputs p1 = take (nat (buckets p)) (bucket # throughputs p)"
proof (cases "int (length (bucket # throughputs p)) > buckets p")
  case True
  with assms show ?thesis
    by (auto simp: prependThroughputBucket_def Let_def split: if_splits simp del: take_Suc_Cons)
next
  case False
  then have "take (nat (buckets p)) (bucket # throughputs p) = bucket # throughputs p"
    by simp
  with False assms show ?thesis
    by (auto simp: prependThroughputBucket_def Let_def simp del: take_Suc_Cons)
qed

lemma prependThroughputBucket_nonempty:
  assumes "0 < buckets p"
  shows "\<exists>p1. prependThroughputBucket p bucket = Inr p1 \<and> throughputs p1 \<noteq> []"
proof -
  from assms have "\<exists>p1. prependThroughputBucket p bucket = Inr p1"
    by (simp add: prependThroughputBucket_def Let_def del: take_Suc_Cons)
  then obtain p1 where p1: "prependThroughputBucket p bucket = Inr p1" ..
  from assms obtain k where "nat (buckets p) = Suc k"
    by (cases "nat (buckets p)") auto
  with prependThroughputBucket_fields [OF p1] have "throughputs p1 \<noteq> []" by simp
  with p1 show ?thesis by blast
qed

lemma calculationTick_fields:
  assumes tick: "calculationTick truncateFloat GetThroughput now (p, lastCheckedTime) = Inr (p', t')"
  shows "config p' = config p \<and> buckets p' = buckets p \<and> leader p' = leader p"
  using tick
proof (cases rule: calculationTick_cases)
  case (store_error err)
  then show ?thesis by simp
next
  case (follower rows p1)
  with prependThroughputBucket_fields [OF follower(2)] show ?thesis by simp
next
  case (leader rows p1 retP retQ p2)
  from calculateProbabilitiesAndQPS_unchanged [OF leader(4)]
  have "config p2 = config p1" "buckets p2 = buckets p1" "leader p2 = leader p1"
    by (simp_all add: unchanged_by_calculation_def)
  with prependThroughputBucket_fields [OF leader(2)] leader(5) show ?thesis
    by (simp add: generateStrategyResponses_def)
qed

lemma calculationTick_within_bounds:
  assumes dflt: "within_bounds (config p) (DefaultSamplingProbability (config p))"
    and cur: "probabilities_within_bounds (config p) (probabilities p)"
    and tick: "calculationTick truncateFloat GetThroughput now (p, lastCheckedTime) = Inr (p', t')"
  shows "probabilities_within_bounds (config p') (probabilities p')"
  using tick
proof (cases rule: calculationTick_cases)
  case (store_error err)
  with cur show ?thesis by simp
next
  case (follower rows p1)
  with prependThroughputBucket_fields [OF follower(2)] cur show ?thesis by simp
next
  case (leader rows p1 retP retQ p2)
  from prependThroughputBucket_fields [OF leader(2)]
  have p1: "config p1 = config p" "probabilities p1 = probabilities p" by simp_all
  from calculateProbabilitiesAndQPS_invariant [OF leader(4)] dflt cur
  have "unchanged_by_calculation p1 p2" "probabilities_within_bounds (config p) retP"
    by (simp_all add: p1)
  with leader(5) p1 show ?thesis
    by (simp add: generateStrategyResponses_def unchanged_by_calculation_def)
qed

lemma calculationTick_no_throughputs_panic:
  assumes "0 < buckets p"
  shows "calculationTick truncateFloat GetThroughput now (p, lastCheckedTime)
           \<noteq> Inl ThroughputsIndexOutOfRange"
proof -
  let ?endT = "now + Delay (config p) * -1"
  let ?b = "\<lambda>rows. \<lparr> throughput = aggregateThroughput rows,
             interval = ?endT - lastCheckedTime, endTime = ?endT \<rparr>"
  show ?thesis
  proof (cases "GetThroughput lastCheckedTime ?endT")
    case (Inl err)
    then show ?thesis by (simp add: calculationTick_def Let_def)
  next
    case rows: (Inr rows)
    from prependThroughputBucket_nonempty [OF assms, of "?b rows"]
    obtain p1 where p1: "prependThroughputBucket p (?b rows) = Inr p1"
      and ne: "throughputs p1 \<noteq> []" by blast
    show ?thesis
    proof (cases "leader p1")
      case False
      with rows p1 show ?thesis by (simp add: calculationTick_def Let_def isLeader_def)
    next
      case True
      from calculateProbabilitiesAndQPS_ring_nonempty [OF ne, of truncateFloat]
      show ?thesis
        using rows p1 True
        by (cases "calculateProbabilitiesAndQPS truncateFloat p1")
           (auto simp: calculationTick_def Let_def isLeader_def)
    qed
  qed
qed


subsection \<open>Scenario S1, tick by tick\<close>

lemmas start_defs = started_def S1_start_def emptyStore_def lockGranted_def Start_def
    NewProcessor_def wrap64_def setLeader_def acquireLock_def samplingLock_def
    loadProbabilities_def calculationLoopStart_def initializeThroughput_def

lemmas tick_defs = calculationTick_def S1_store_def S1_row_def
    prependThroughputBucket_def aggregateThroughput_def aggregate_row_def
    ensure_service_def nested_lookup_def nested_update_def inner_map_def
    calculateProbabilitiesAndQPS_def prependServiceCache_def serviceCacheSize_def
    generateOperationQPS_def qps_service_step_def qps_operation_step_def calculateQPS_def
    calc_service_step_def calc_operation_step_def calculateWeightedQPS_def
    calculateProbability_def oldProbability_def usingAdaptiveSampling_def floatEquals_def
    cache_Set_def cache_Get_def maxSamplingProbability_def isLeader_def
    generateStrategyResponses_def Let_def

lemmas S1_state_defs = S1_initial_def S1_processor_def S1_bucket_def S1_snapshot_def

lemma length_decayWeights: "length (decayWeights n) = n"
  by (simp add: decayWeights_def Let_def)

lemma decayWeights_empty: "decayWeights n = [] \<longleftrightarrow> n = 0"
  by (simp add: decayWeights_def Let_def)

lemma S1_start_state:
  "S1_start threshold weights calculator = Inr (S1_initial threshold weights calculator, 0)"
  by (simp add: start_defs isLeader_def generateStrategyResponses_def Let_def S1_initial_def
      cfg_simps numeral_2_eq_2)

lemma S1_tick1_step:
  assumes "threshold \<le> 1" and "length (weights 1) = 1"
  shows "calculationTick truncateFloat (S1_store seen1) (1 * second)
           (S1_initial threshold weights calculator, 0) =
         Inr (S1_processor threshold weights calculator 0.002
                [S1_bucket seen1 (1 * second)] [S1_snapshot 0.001], 1 * second)"
  using assms by (auto simp add: tick_defs S1_state_defs cfg_simps)

lemma S1_tick2_step:
  assumes "threshold \<le> 1" and "length (weights 2) = 2" and "truncateFloat 0.002 \<in> seen2"
  shows "calculationTick truncateFloat (S1_store seen2) (2 * second)
           (S1_processor threshold weights calculator 0.002
              [S1_bucket seen1 (1 * second)] [S1_snapshot 0.001], 1 * second) =
         Inr (S1_processor threshold weights calculator 0.004
                [S1_bucket seen2 (2 * second), S1_bucket seen1 (1 * second)]
                [S1_snapshot 0.002, S1_snapshot 0.001], 2 * second)"
proof -
  have w2: "length (weights (Suc (Suc 0))) = Suc (Suc 0)"
    using assms(2) by (simp add: numeral_2_eq_2)
  show ?thesis
    using assms w2 by (auto simp add: tick_defs S1_state_defs cfg_simps)
qed

lemma S1_tick3_step:
  assumes "threshold \<le> 1" and "length (weights 2) = 2" and "truncateFloat 0.004 \<in> seen3"
  shows "calculationTick truncateFloat (S1_store seen3) (3 * second)
           (S1_processor threshold weights calculator 0.004
              [S1_bucket seen2 (2 * second), S1_bucket seen1 (1 * second)]
              [S1_snapshot 0.002, S1_snapshot 0.001], 2 * second) =
         Inr (S1_processor threshold weights calculator 0.008
                [S1_bucket seen3 (3 * second), S1_bucket seen2 (2 * second)]
                [S1_snapshot 0.004, S1_snapshot 0.002, S1_snapshot 0.001], 3 * second)"
proof -
  have w2: "length (weights (Suc (Suc 0))) = Suc (Suc 0)"
    using assms(2) by (simp add: numeral_2_eq_2)
  show ?thesis
    using assms w2 by (auto simp add: tick_defs S1_state_defs cfg_simps)
qed

lemma S1_tick1_state:
  assumes "threshold \<le> 1" and "length (weights 1) = 1"
  shows "S1_tick1 truncateFloat threshold weights calculator seen1 =
           Inr (S1_processor threshold weights calculator 0.002
                  [S1_bucket seen1 (1 * second)] [S1_snapshot 0.001], 1 * second)"
proof -
  have step: "calculationTick truncateFloat (S1_store seen1) (1 * second)
                (S1_initial threshold weights calculator, 0) =
              Inr (S1_processor threshold weights calculator 0.002
                     [S1_bucket seen1 (1 * second)] [S1_snapshot 0.001], 1 * second)"
    using assms by (rule S1_tick1_step)
  show ?thesis
    by (simp only: S1_tick1_def S1_start_state and_then_def sum.case step)
qed

lemma S1_tick2_state:
  assumes "threshold \<le> 1" and "length (weights 1) = 1" and "length (weights 2) = 2"
    and "truncateFloat 0.002 \<in> seen2"
  shows "S1_tick2 truncateFloat threshold weights calculator seen1 seen2 =
           Inr (S1_processor threshold weights calculator 0.004
                  [S1_bucket seen2 (2 * second), S1_bucket seen1 (1 * second)]
                  [S1_snapshot 0.002, S1_snapshot 0.001], 2 * second)"
proof -
  have before: "S1_tick1 truncateFloat threshold weights calculator seen1 =
                  Inr (S1_processor threshold weights calculator 0.002
                         [S1_bucket seen1 (1 * second)] [S1_snapshot 0.001], 1 * second)"
    using assms(1,2) by (rule S1_tick1_state)
  have step: "calculationTick truncateFloat (S1_store seen2) (2 * second)
                (S1_processor threshold weights calculator 0.002
                   [S1_bucket seen1 (1 * second)] [S1_snapshot 0.001], 1 * second) =
              Inr (S1_processor threshold weights calculator 0.004
                     [S1_bucket seen2 (2 * second), S1_bucket seen1 (1 * second)]
                     [S1_snapshot 0.002, S1_snapshot 0.001], 2 * second)"
    using assms(1,3,4) by (rule S1_tick2_step)
  show ?thesis
    by (simp only: S1_tick2_def before and_then_def sum.case step)
qed

lemma S1_tick3_state:
  assumes "threshold \<le> 1" and "length (weights 1) = 1" and "length (weights 2) = 2"
    and "truncateFloat 0.002 \<in> seen2" and "truncateFloat 0.004 \<in> seen3"
  shows "S1_tick3 truncateFloat threshold weights calculator seen1 seen2 seen3 =
           Inr (S1_processor threshold weights calculator 0.008
                  [S1_bucket seen3 (3 * second), S1_bucket seen2 (2 * second)]
                  [S1_snapshot 0.004, S1_snapshot 0.002, S1_snapshot 0.001], 3 * second)"
proof -
  have before: "S1_tick2 truncateFloat threshold weights calculator seen1 seen2 =
                  Inr (S1_processor threshold weights calculator 0.004
                         [S1_bucket seen2 (2 * second), S1_bucket seen1 (1 * second)]
                         [S1_snapshot 0.002, S1_snapshot 0.001], 2 * second)"
    using assms(1-4) by (rule S1_tick2_state)
  have step: "calculationTick truncateFloat (S1_store seen3) (3 * second)
                (S1_processor threshold weights calculator 0.004
                   [S1_bucket seen2 (2 * second), S1_bucket seen1 (1 * second)]
                   [S1_snapshot 0.002, S1_snapshot 0.001], 2 * second) =
              Inr (S1_processor threshold weights calculator 0.008
                     [S1_bucket seen3 (3 * second), S1_bucket seen2 (2 * second)]
                     [S1_snapshot 0.004, S1_snapshot 0.002, S1_snapshot 0.001], 3 * second)"
    using assms(1,3,5) by (rule S1_tick3_step)
  show ?thesis
    by (simp only: S1_tick3_def before and_then_def sum.case step)
qed

lemma NewProcessor_S1:
  "NewProcessor (S1_config threshold) ''collector'' weights calculator =
     Inr ((S1_initial threshold weights calculator)\<lparr>leader := False\<rparr>)"
  by (simp add: NewProcessor_def S1_initial_def cfg_simps wrap64_def)

lemma example_processor_old: "oldProbability example_processor ''A'' ''x'' = 0.3"
  by (simp add: oldProbability_def nested_lookup_def example_processor_def)

lemma example_processor_lists:
  "throughputs example_processor \<noteq> []" "serviceCache example_processor \<noteq> []"
  by (simp_all add: example_processor_def)

section \<open>The claims\<close>

text \<open>
  C1 (amended). Scenario S1 with an equivalence threshold of at most 1 and a weights
  cache that returns \<open>n\<close> weights for \<open>n\<close> samples: when the row
  \<^verbatim>\<open>{service=A, operation=x, count=0}\<close> of the second tick carries the truncated form of
  0.002 among its seen probabilities and the row of the third tick that of 0.004, the
  published probability of (A, x) is 0.002 after the first tick, 0.004 after the second
  and 0.008 after the third. The first tick classifies the operation as adaptive because
  its probability is the default; the later ticks do so only through the seen
  probabilities of the row.
\<close>

theorem S1_ramp_up:
  assumes "threshold \<le> 1"
    and "length (weights 1) = 1" and "length (weights 2) = 2"
    and "truncateFloat 0.002 \<in> seen2" and "truncateFloat 0.004 \<in> seen3"
  shows "published (S1_tick1 truncateFloat threshold weights calculator seen1) ''A'' ''x''
           = Some 0.002
       \<and> published (S1_tick2 truncateFloat threshold weights calculator seen1 seen2) ''A'' ''x''
           = Some 0.004
       \<and> published (S1_tick3 truncateFloat threshold weights calculator seen1 seen2 seen3)
           ''A'' ''x'' = Some 0.008"
proof -
  have "published (S1_tick1 truncateFloat threshold weights calculator seen1) ''A'' ''x''
          = Some 0.002"
    using assms by (simp add: S1_tick1_state published_def nested_lookup_def S1_processor_def)
  moreover
  have "published (S1_tick2 truncateFloat threshold weights calculator seen1 seen2) ''A'' ''x''
          = Some 0.004"
    using assms by (simp add: S1_tick2_state published_def nested_lookup_def S1_processor_def)
  moreover
  have "published (S1_tick3 truncateFloat threshold weights calculator seen1 seen2 seen3)
          ''A'' ''x'' = Some 0.008"
    using assms by (simp add: S1_tick3_state published_def nested_lookup_def S1_processor_def)
  ultimately show ?thesis by simp
qed

theorem S1_ramp_up_witness:
  "(0.01::real) \<le> 1 \<and> length (decayWeights 1) = 1 \<and> length (decayWeights 2) = 2
   \<and> truncateFloat4 0.002 \<in> {''0.0020''} \<and> truncateFloat4 0.004 \<in> {''0.0040''}
   \<and> published (S1_tick1 truncateFloat4 0.01 decayWeights (percentageIncreaseCapped 1.0) {})
        ''A'' ''x'' = Some 0.002
   \<and> published (S1_tick2 truncateFloat4 0.01 decayWeights (percentageIncreaseCapped 1.0) {}
        {''0.0020''}) ''A'' ''x'' = Some 0.004
   \<and> published (S1_tick3 truncateFloat4 0.01 decayWeights (percentageIncreaseCapped 1.0) {}
        {''0.0020''} {''0.0040''}) ''A'' ''x'' = Some 0.008"
proof -
  have h1: "(0.01::real) \<le> 1" by simp
  have h2: "length (decayWeights 1) = 1" and h3: "length (decayWeights 2) = 2"
    by (simp_all add: length_decayWeights)
  have h4: "truncateFloat4 0.002 \<in> {''0.0020''}" and h5: "truncateFloat4 0.004 \<in> {''0.0040''}"
    by (simp_all add: truncateFloat4_def digit_def)
  from S1_ramp_up [OF h1 h2 h3 h4 h5, of "percentageIncreaseCapped 1.0" "{}"]
  show ?thesis using h1 h2 h3 h4 h5 by simp
qed

text \<open>
  The scenario as the specification words it, with rows that carry no seen
  probabilities: the second tick finds a throughput entry for (A, x) whose set does not
  hold the truncated 0.002, classifies the operation as not adaptive and leaves the
  probability at 0.002; so does the third.
\<close>

theorem S1_without_seen_probabilities_counterexample:
  "published (S1_tick1 truncateFloat4 0.01 decayWeights (percentageIncreaseCapped 1.0) {})
     ''A'' ''x'' = Some 0.002
   \<and> published (S1_tick2 truncateFloat4 0.01 decayWeights (percentageIncreaseCapped 1.0) {} {})
       ''A'' ''x'' = Some 0.002
   \<and> published (S1_tick2 truncateFloat4 0.01 decayWeights (percentageIncreaseCapped 1.0) {} {})
       ''A'' ''x'' \<noteq> Some 0.004
   \<and> published (S1_tick3 truncateFloat4 0.01 decayWeights (percentageIncreaseCapped 1.0) {} {} {})
       ''A'' ''x'' = Some 0.002
   \<and> published (S1_tick3 truncateFloat4 0.01 decayWeights (percentageIncreaseCapped 1.0) {} {} {})
       ''A'' ''x'' \<noteq> Some 0.008"
proof -
  have t1: "S1_tick1 truncateFloat4 0.01 decayWeights (percentageIncreaseCapped 1.0) {} =
              Inr (S1_processor 0.01 decayWeights (percentageIncreaseCapped 1.0) 0.002
                     [S1_bucket {} (1 * second)] [S1_snapshot 0.001], 1 * second)"
    by (rule S1_tick1_state) (simp_all add: length_decayWeights)
  have later:
    "published (S1_tick2 truncateFloat4 0.01 decayWeights (percentageIncreaseCapped 1.0) {} {})
       ''A'' ''x'' = Some 0.002
     \<and> published (S1_tick3 truncateFloat4 0.01 decayWeights (percentageIncreaseCapped 1.0) {} {} {})
       ''A'' ''x'' = Some 0.002"
    unfolding S1_tick3_def S1_tick2_def t1 and_then_def published_def
    by (simp add: tick_defs S1_state_defs cfg_simps length_decayWeights)
  have "published (S1_tick1 truncateFloat4 0.01 decayWeights (percentageIncreaseCapped 1.0) {})
          ''A'' ''x'' = Some 0.002"
    unfolding t1 by (simp add: published_def nested_lookup_def S1_processor_def)
  with later show ?thesis by simp
qed

text \<open>
  C2 (amended). The bounds are kept, not imposed. With \<^verbatim>\<open>MinSamplingProbability\<close> at most
  1, \<^verbatim>\<open>calculateProbability\<close> returns a value within the bounds whenever the old
  probability it starts from is within them; a calculation tick that starts from a
  probabilities map within the bounds and a default probability within the bounds ends
  with such a map; \<^verbatim>\<open>loadProbabilities\<close> installs the store's map as it is (and changes
  nothing but the log on an error); \<^verbatim>\<open>NewProcessor\<close> starts from the empty map.
\<close>

theorem probabilities_stay_within_bounds:
  "(MinSamplingProbability (config p) \<le> 1
      \<and> within_bounds (config p) (oldProbability p service operation)
      \<and> calculateProbability truncateFloat p service operation qps_v = Inr (v, p1)
    \<longrightarrow> within_bounds (config p) v)
   \<and> (within_bounds (config q) (DefaultSamplingProbability (config q))
      \<and> probabilities_within_bounds (config q) (probabilities q)
      \<and> calculationTick truncateFloat GetThroughput now (q, lastCheckedTime) = Inr (q', t')
    \<longrightarrow> config q' = config q \<and> probabilities_within_bounds (config q') (probabilities q'))
   \<and> probabilities (loadProbabilities r (Inr latest)) = latest
   \<and> config (loadProbabilities r (Inr latest)) = config r
   \<and> probabilities (loadProbabilities r (Inl err)) = probabilities r
   \<and> (NewProcessor cfg host weights calculator = Inr p0
    \<longrightarrow> probabilities p0 = [] \<and> config p0 = cfg)"
proof -
  have one: "MinSamplingProbability (config p) \<le> 1
      \<and> within_bounds (config p) (oldProbability p service operation)
      \<and> calculateProbability truncateFloat p service operation qps_v = Inr (v, p1)
    \<longrightarrow> within_bounds (config p) v"
    using calculateProbability_within_bounds by blast
  have two: "within_bounds (config q) (DefaultSamplingProbability (config q))
      \<and> probabilities_within_bounds (config q) (probabilities q)
      \<and> calculationTick truncateFloat GetThroughput now (q, lastCheckedTime) = Inr (q', t')
    \<longrightarrow> config q' = config q \<and> probabilities_within_bounds (config q') (probabilities q')"
    using calculationTick_within_bounds calculationTick_fields by blast
  have three: "probabilities (loadProbabilities r (Inr latest)) = latest"
    "config (loadProbabilities r (Inr latest)) = config r"
    "probabilities (loadProbabilities r (Inl err)) = probabilities r"
    by (simp_all add: loadProbabilities_def)
  have four: "NewProcessor cfg host weights calculator = Inr p0
    \<longrightarrow> probabilities p0 = [] \<and> config p0 = cfg"
    by (auto simp: NewProcessor_def split: if_splits)
  show ?thesis
    by (intro conjI) (rule one two three four)+
qed

theorem probabilities_stay_within_bounds_witness:
  "MinSamplingProbability (config example_processor) \<le> 1
   \<and> within_bounds (config example_processor) (oldProbability example_processor ''A'' ''x'')
   \<and> calculateProbability truncateFloat4 example_processor ''A'' ''x'' 0 =
       Inr (0.6, example_processor\<lparr>serviceCache :=
                   [[(''A'', [(''x'', \<lparr> probability = 0.3, usingAdapative = True \<rparr>)])]]\<rparr>)
   \<and> within_bounds (config example_processor) 0.6
   \<and> within_bounds (config (S1_initial 0.01 decayWeights (percentageIncreaseCapped 1.0)))
       (DefaultSamplingProbability (config (S1_initial 0.01 decayWeights (percentageIncreaseCapped 1.0))))
   \<and> probabilities_within_bounds (config (S1_initial 0.01 decayWeights (percentageIncreaseCapped 1.0)))
       (probabilities (S1_initial 0.01 decayWeights (percentageIncreaseCapped 1.0)))
   \<and> calculationTick truncateFloat4 (S1_store {}) (1 * second)
       (S1_initial 0.01 decayWeights (percentageIncreaseCapped 1.0), 0) =
       Inr (S1_processor 0.01 decayWeights (percentageIncreaseCapped 1.0) 0.002
              [S1_bucket {} (1 * second)] [S1_snapshot 0.001], 1 * second)
   \<and> probabilities_within_bounds
       (config (S1_processor 0.01 decayWeights (percentageIncreaseCapped 1.0) 0.002
              [S1_bucket {} (1 * second)] [S1_snapshot 0.001]))
       (probabilities (S1_processor 0.01 decayWeights (percentageIncreaseCapped 1.0) 0.002
              [S1_bucket {} (1 * second)] [S1_snapshot 0.001]))
   \<and> NewProcessor (S1_config 0.01) ''collector'' decayWeights (percentageIncreaseCapped 1.0) =
       Inr ((S1_initial 0.01 decayWeights (percentageIncreaseCapped 1.0))\<lparr>leader := False\<rparr>)
   \<and> probabilities ((S1_initial 0.01 decayWeights (percentageIncreaseCapped 1.0))\<lparr>leader := False\<rparr>) = []"
proof -
  let ?w = decayWeights and ?c = "percentageIncreaseCapped 1.0"
  let ?p1 = "example_processor\<lparr>serviceCache :=
               [[(''A'', [(''x'', \<lparr> probability = 0.3, usingAdapative = True \<rparr>)])]]\<rparr>"
  let ?q' = "S1_processor 0.01 ?w ?c 0.002 [S1_bucket {} (1 * second)] [S1_snapshot 0.001]"
  have a1: "MinSamplingProbability (config example_processor) \<le> 1"
    by (simp add: example_processor_def cfg_simps)
  have a2: "within_bounds (config example_processor) (oldProbability example_processor ''A'' ''x'')"
    unfolding example_processor_old
    by (simp add: within_bounds_def maxSamplingProbability_def example_processor_def cfg_simps)
  have a3: "calculateProbability truncateFloat4 example_processor ''A'' ''x'' 0 = Inr (0.6, ?p1)"
    by (simp add: calculateProbability_def oldProbability_def usingAdaptiveSampling_def
        floatEquals_def nested_lookup_def cache_Set_def maxSamplingProbability_def
        truncateFloat4_def digit_def S1_row_def example_processor_def cfg_simps Let_def)
  have b1: "within_bounds (config (S1_initial 0.01 ?w ?c))
              (DefaultSamplingProbability (config (S1_initial 0.01 ?w ?c)))"
    by (simp add: within_bounds_def maxSamplingProbability_def S1_initial_def cfg_simps)
  have b2: "probabilities_within_bounds (config (S1_initial 0.01 ?w ?c))
              (probabilities (S1_initial 0.01 ?w ?c))"
    by (simp add: probabilities_within_bounds_def S1_initial_def)
  have b3: "calculationTick truncateFloat4 (S1_store {}) (1 * second) (S1_initial 0.01 ?w ?c, 0) =
              Inr (?q', 1 * second)"
    by (rule S1_tick1_step) (simp_all add: length_decayWeights)
  have c1: "NewProcessor (S1_config 0.01) ''collector'' ?w ?c =
              Inr ((S1_initial 0.01 ?w ?c)\<lparr>leader := False\<rparr>)"
    by (rule NewProcessor_S1)
  note inst = probabilities_stay_within_bounds
    [where p = example_processor and service = "''A''" and operation = "''x''" and qps_v = "0"
       and truncateFloat = truncateFloat4 and v = "0.6" and ?p1.0 = ?p1
       and q = "S1_initial 0.01 ?w ?c" and GetThroughput = "S1_store {}" and now = "1 * second"
       and lastCheckedTime = "0" and q' = ?q' and t' = "1 * second"
       and cfg = "S1_config 0.01" and host = "''collector''" and weights = ?w and calculator = ?c
       and ?p0.0 = "(S1_initial 0.01 ?w ?c)\<lparr>leader := False\<rparr>"]
  from a1 a2 a3 have pre1: "MinSamplingProbability (config example_processor) \<le> 1
      \<and> within_bounds (config example_processor) (oldProbability example_processor ''A'' ''x'')
      \<and> calculateProbability truncateFloat4 example_processor ''A'' ''x'' 0 = Inr (0.6, ?p1)"
    by (intro conjI)
  from b1 b2 b3 have pre2: "within_bounds (config (S1_initial 0.01 ?w ?c))
              (DefaultSamplingProbability (config (S1_initial 0.01 ?w ?c)))
      \<and> probabilities_within_bounds (config (S1_initial 0.01 ?w ?c))
              (probabilities (S1_initial 0.01 ?w ?c))
      \<and> calculationTick truncateFloat4 (S1_store {}) (1 * second) (S1_initial 0.01 ?w ?c, 0) =
              Inr (?q', 1 * second)"
    by (intro conjI)
  note r1 = inst [THEN conjunct1, THEN mp, OF pre1]
  note r2 = inst [THEN conjunct2, THEN conjunct1, THEN mp, OF pre2, THEN conjunct2]
  note r3 = inst [THEN conjunct2, THEN conjunct2, THEN conjunct2, THEN conjunct2, THEN conjunct2,
      THEN mp, OF c1, THEN conjunct1]
  show ?thesis
    by (intro conjI) (rule a1 a2 a3 r1 b1 b2 b3 r2 c1 r3)+
qed

text \<open>
  The claim as stated fails at a processor configured as in S1 (minimum 0.001) and
  started on a store whose latest probabilities hold 0.0005 for (A, x): the value is
  installed, and published, as it is.
\<close>

theorem loaded_probability_below_minimum_counterexample:
  "published (started (S1_config 0.01) decayWeights (percentageIncreaseCapped 1.0)
                (Inr [(''A'', [(''x'', 0.0005)])])) ''A'' ''x'' = Some 0.0005
   \<and> \<not> MinSamplingProbability (S1_config 0.01) \<le> 0.0005"
  by (simp add: start_defs isLeader_def generateStrategyResponses_def Let_def published_def
      nested_lookup_def cfg_simps numeral_2_eq_2)


text \<open>
  C3 (the code departs from the claim). With the default probability 0.001, the
  sampling-status snapshot of the previous round holds for (A, x) the probability
  0.00100000005, which is the default within the tolerance \<open>1e-10\<close>, and the flag
  \<^verbatim>\<open>usingAdapative\<close>; the old probability 0.3 is not the default and the most recent
  bucket has no entry for (A, x). \<^verbatim>\<open>usingAdaptiveSampling\<close> compares the recorded
  probability with \<^verbatim>\<open>!=\<close> and answers true, where a comparison within the tolerance
  answers false. The second part reaches such a state from a start: the store's latest
  probabilities hold 0.00100000005 for (A, x), the first tick sees the row of S1 and the
  second tick sees no rows; the second tick classifies (A, x) as adaptive and doubles its
  probability again.
\<close>

theorem usingAdaptiveSampling_history_exact_comparison:
  "floatEquals 0.00100000005 (DefaultSamplingProbability (config example_processor))
   \<and> \<not> floatEquals 0.3 (DefaultSamplingProbability (config example_processor))
   \<and> nested_lookup [] ''A'' ''x'' = (None :: Throughput option)
   \<and> usingAdaptiveSampling truncateFloat
       (example_processor\<lparr>serviceCache :=
          [[], [(''A'', [(''x'', \<lparr> probability = 0.00100000005, usingAdapative = True \<rparr>)])]]\<rparr>)
       0.3 ''A'' ''x'' [] = True
   \<and> published
       (and_then
          (and_then (started (S1_config 0.01) decayWeights (percentageIncreaseCapped 1.0)
                       (Inr [(''A'', [(''x'', 0.00100000005)])]))
             (calculationTick truncateFloat (S1_store {}) (1 * second)))
          (calculationTick truncateFloat emptyStore (2 * second)))
       ''A'' ''x'' = Some 0.0040000002"
proof -
  have "published
       (and_then
          (and_then (started (S1_config 0.01) decayWeights (percentageIncreaseCapped 1.0)
                       (Inr [(''A'', [(''x'', 0.00100000005)])]))
             (calculationTick truncateFloat (S1_store {}) (1 * second)))
          (calculationTick truncateFloat emptyStore (2 * second)))
       ''A'' ''x'' = Some 0.0040000002"
    by (simp add: start_defs tick_defs published_def and_then_def cfg_simps numeral_2_eq_2
        length_decayWeights decayWeights_empty)
  then show ?thesis
    by (simp add: usingAdaptiveSampling_def floatEquals_def nested_lookup_def cache_Get_def
        example_processor_def cfg_simps)
qed

text \<open>
  C4 (amended). \<^verbatim>\<open>acquireLock\<close> asks the lock service for \<^verbatim>\<open>sampling_lock\<close>. When the
  lock is granted it sets the leader flag and returns \<^verbatim>\<open>LeaderLeaseRefreshInterval\<close>;
  when it is denied it clears the flag and returns \<^verbatim>\<open>FollowerLeaseRefreshInterval\<close>; on
  an error it leaves the flag as it is, logs, and returns the interval of the flag it
  finds: \<^verbatim>\<open>LeaderLeaseRefreshInterval\<close> for a leader, \<^verbatim>\<open>FollowerLeaseRefreshInterval\<close>
  otherwise.
\<close>

theorem acquireLock_outcomes:
  "(acquire samplingLock = Inr True \<longrightarrow>
      acquireLock p acquire = (p\<lparr>leader := True\<rparr>, LeaderLeaseRefreshInterval (config p)))
   \<and> (acquire samplingLock = Inr False \<longrightarrow>
      acquireLock p acquire = (p\<lparr>leader := False\<rparr>, FollowerLeaseRefreshInterval (config p)))
   \<and> (acquire samplingLock = Inl err \<longrightarrow>
      acquireLock p acquire =
        (p\<lparr>logged := logged p @ [acquireLockErrMsg]\<rparr>,
         if leader p then LeaderLeaseRefreshInterval (config p)
         else FollowerLeaseRefreshInterval (config p)))"
  by (simp add: acquireLock_def setLeader_def isLeader_def)

theorem acquireLock_outcomes_witness:
  "lockGranted samplingLock = Inr True
   \<and> acquireLock example_processor lockGranted = (example_processor\<lparr>leader := True\<rparr>, 5 * second)
   \<and> lockDenied samplingLock = Inr False
   \<and> acquireLock example_processor lockDenied = (example_processor\<lparr>leader := False\<rparr>, 60 * second)
   \<and> lockFailed samplingLock = Inl ''lock service unavailable''
   \<and> acquireLock example_processor lockFailed =
       (example_processor\<lparr>logged := [acquireLockErrMsg]\<rparr>, 5 * second)
   \<and> acquireLock (example_processor\<lparr>leader := False\<rparr>) lockFailed =
       (example_processor\<lparr>leader := False, logged := [acquireLockErrMsg]\<rparr>, 60 * second)"
  using acquireLock_outcomes [where acquire = lockGranted and p = example_processor]
    acquireLock_outcomes [where acquire = lockDenied and p = example_processor]
    acquireLock_outcomes [where acquire = lockFailed and p = example_processor
      and err = "''lock service unavailable''"]
    acquireLock_outcomes [where acquire = lockFailed
      and p = "example_processor\<lparr>leader := False\<rparr>"
      and err = "''lock service unavailable''"]
  by (simp add: lockGranted_def lockDenied_def lockFailed_def example_processor_def cfg_simps)

text \<open>
  A leader whose call to the lock service fails keeps the flag and is told to come back
  after \<^verbatim>\<open>LeaderLeaseRefreshInterval\<close> (5 s), not after
  \<^verbatim>\<open>FollowerLeaseRefreshInterval\<close> (60 s).
\<close>

theorem acquireLock_error_while_leader_counterexample:
  "lockFailed samplingLock = Inl ''lock service unavailable''
   \<and> leader example_processor
   \<and> snd (acquireLock example_processor lockFailed) = 5 * second
   \<and> FollowerLeaseRefreshInterval (config example_processor) = 60 * second
   \<and> snd (acquireLock example_processor lockFailed)
       \<noteq> FollowerLeaseRefreshInterval (config example_processor)"
  by (simp add: acquireLock_def setLeader_def isLeader_def lockFailed_def example_processor_def
      cfg_simps)

text \<open>
  C5 (amended). For a configuration whose two intervals are not negative,
  \<^verbatim>\<open>NewProcessor\<close> returns an error exactly when the configuration violates one of:
  \<^verbatim>\<open>CalculationInterval\<close> at most \<^verbatim>\<open>LookbackInterval\<close>; both intervals greater than 0;
  \<^verbatim>\<open>FollowerLeaseRefreshInterval\<close> at least \<^verbatim>\<open>LeaderLeaseRefreshInterval\<close>;
  \<^verbatim>\<open>LookbackQPSCount\<close> at least 1. Otherwise it returns a processor that holds the
  configuration.
\<close>

theorem NewProcessor_validation:
  assumes "0 \<le> CalculationInterval cfg" and "0 \<le> LookbackInterval cfg"
  shows "(isl (NewProcessor cfg host weights calculator) \<longleftrightarrow>
           \<not> (CalculationInterval cfg \<le> LookbackInterval cfg
              \<and> 0 < CalculationInterval cfg \<and> 0 < LookbackInterval cfg
              \<and> LeaderLeaseRefreshInterval cfg \<le> FollowerLeaseRefreshInterval cfg
              \<and> 1 \<le> LookbackQPSCount cfg))
       \<and> (\<not> isl (NewProcessor cfg host weights calculator) \<longrightarrow>
           (\<exists>p. NewProcessor cfg host weights calculator = Inr p \<and> config p = cfg))"
  using assms by (auto simp: NewProcessor_def)

theorem NewProcessor_validation_witness:
  "0 \<le> CalculationInterval (S1_config 0.01) \<and> 0 \<le> LookbackInterval (S1_config 0.01)
   \<and> \<not> isl (NewProcessor (S1_config 0.01) ''collector'' decayWeights (percentageIncreaseCapped 1.0))
   \<and> (\<exists>p. NewProcessor (S1_config 0.01) ''collector'' decayWeights (percentageIncreaseCapped 1.0)
              = Inr p \<and> config p = S1_config 0.01)
   \<and> 0 \<le> CalculationInterval ((S1_config 0.01)\<lparr>LookbackQPSCount := 0\<rparr>)
   \<and> 0 \<le> LookbackInterval ((S1_config 0.01)\<lparr>LookbackQPSCount := 0\<rparr>)
   \<and> isl (NewProcessor ((S1_config 0.01)\<lparr>LookbackQPSCount := 0\<rparr>) ''collector'' decayWeights
            (percentageIncreaseCapped 1.0))"
  using NewProcessor_validation [of "S1_config 0.01" "''collector''" decayWeights
      "percentageIncreaseCapped 1.0"]
    NewProcessor_validation [of "(S1_config 0.01)\<lparr>LookbackQPSCount := 0\<rparr>" "''collector''"
      decayWeights "percentageIncreaseCapped 1.0"]
  by (simp add: cfg_simps)

text \<open>
  A configuration with equal intervals of one second does not satisfy
  \<^verbatim>\<open>CalculationInterval < LookbackInterval\<close>, and \<^verbatim>\<open>NewProcessor\<close> accepts it.
\<close>

theorem NewProcessor_equal_intervals_counterexample:
  "\<not> isl (NewProcessor ((S1_config 0.01)\<lparr>LookbackInterval := 1 * second\<rparr>) ''collector''
            decayWeights (percentageIncreaseCapped 1.0))
   \<and> \<not> CalculationInterval ((S1_config 0.01)\<lparr>LookbackInterval := 1 * second\<rparr>)
         < LookbackInterval ((S1_config 0.01)\<lparr>LookbackInterval := 1 * second\<rparr>)"
  by (simp add: NewProcessor_def cfg_simps)

text \<open>
  C6. For an operation classified as adaptive, with a rate that is 0 within the
  tolerance and at least the equivalence threshold away from the target,
  \<^verbatim>\<open>calculateProbability\<close> returns \<open>min 1 (max MinSamplingProbability (2 * old))\<close>. The
  call needs a bucket in the ring and a snapshot in the history, as it has within a tick.
\<close>

theorem calculateProbability_zero_qps_doubles:
  assumes "usingAdaptiveSampling truncateFloat p (oldProbability p service operation) service
             operation (throughput (hd (throughputs p)))"
    and "floatEquals qps_v 0"
    and "GetQPSEquivalenceThreshold (config p) \<le> \<bar>qps_v - GetTargetQPS (config p)\<bar>"
    and "throughputs p \<noteq> []" and "serviceCache p \<noteq> []"
  shows "\<exists>p'. calculateProbability truncateFloat p service operation qps_v =
           Inr (min 1.0 (max (MinSamplingProbability (config p))
                               (2 * oldProbability p service operation)), p')"
  using assms
  by (cases "throughputs p"; cases "serviceCache p")
     (simp_all add: calculateProbability_def Let_def maxSamplingProbability_def mult.commute)

theorem calculateProbability_zero_qps_doubles_witness:
  "usingAdaptiveSampling truncateFloat4 example_processor (oldProbability example_processor ''A'' ''x'')
      ''A'' ''x'' (throughput (hd (throughputs example_processor)))
   \<and> floatEquals 0 0
   \<and> GetQPSEquivalenceThreshold (config example_processor)
       \<le> \<bar>0 - GetTargetQPS (config example_processor)\<bar>
   \<and> throughputs example_processor \<noteq> [] \<and> serviceCache example_processor \<noteq> []
   \<and> (\<exists>p'. calculateProbability truncateFloat4 example_processor ''A'' ''x'' 0 = Inr (0.6, p'))"
proof -
  have h1: "usingAdaptiveSampling truncateFloat4 example_processor
              (oldProbability example_processor ''A'' ''x'') ''A'' ''x''
              (throughput (hd (throughputs example_processor)))"
    unfolding example_processor_old
    by (simp add: usingAdaptiveSampling_def floatEquals_def nested_lookup_def example_processor_def
        cfg_simps S1_row_def truncateFloat4_def digit_def)
  have h2: "floatEquals 0 0" by (simp add: floatEquals_def)
  have h3: "GetQPSEquivalenceThreshold (config example_processor)
              \<le> \<bar>0 - GetTargetQPS (config example_processor)\<bar>"
    by (simp add: example_processor_def cfg_simps)
  note h4 = example_processor_lists(1) and h5 = example_processor_lists(2)
  have m: "min 1.0 (max (MinSamplingProbability (config example_processor)) (2 * 0.3)) = (0.6::real)"
    by (simp add: example_processor_def cfg_simps)
  from calculateProbability_zero_qps_doubles [OF h1 h2 h3 h4 h5]
  have "\<exists>p'. calculateProbability truncateFloat4 example_processor ''A'' ''x'' 0 = Inr (0.6, p')"
    unfolding example_processor_old m .
  with h1 h2 h3 h4 h5 show ?thesis by (intro conjI)
qed

text \<open>
  C7. Whenever the rate is closer to the target than the equivalence threshold,
  \<^verbatim>\<open>calculateProbability\<close> returns the old probability as it is, whatever the adaptive
  status of the operation. The call needs a bucket in the ring and a snapshot in the
  history, as it has within a tick. The witness is scenario S3: old 0.3, rate 1.005,
  target 1, threshold 0.01.
\<close>

theorem calculateProbability_equivalence_short_circuit:
  assumes "\<bar>qps_v - GetTargetQPS (config p)\<bar> < GetQPSEquivalenceThreshold (config p)"
    and "throughputs p \<noteq> []" and "serviceCache p \<noteq> []"
  shows "\<exists>p'. calculateProbability truncateFloat p service operation qps_v =
           Inr (oldProbability p service operation, p')"
  using assms
  by (cases "throughputs p"; cases "serviceCache p") (simp_all add: calculateProbability_def Let_def)

theorem calculateProbability_equivalence_short_circuit_witness:
  "\<bar>1.005 - GetTargetQPS (config example_processor)\<bar>
     < GetQPSEquivalenceThreshold (config example_processor)
   \<and> throughputs example_processor \<noteq> [] \<and> serviceCache example_processor \<noteq> []
   \<and> oldProbability example_processor ''A'' ''x'' = 0.3
   \<and> (\<exists>p'. calculateProbability truncateFloat4 example_processor ''A'' ''x'' 1.005 = Inr (0.3, p'))"
proof -
  have h1: "\<bar>1.005 - GetTargetQPS (config example_processor)\<bar>
              < GetQPSEquivalenceThreshold (config example_processor)"
    by (simp add: example_processor_def cfg_simps)
  note h2 = example_processor_lists(1) and h3 = example_processor_lists(2)
  from calculateProbability_equivalence_short_circuit [OF h1 h2 h3, of truncateFloat4 "''A''" "''x''"]
  have "\<exists>p'. calculateProbability truncateFloat4 example_processor ''A'' ''x'' 1.005 = Inr (0.3, p')"
    unfolding example_processor_old .
  with h1 h2 h3 example_processor_old show ?thesis by (intro conjI)
qed

text \<open>
  C8. The ring discipline, with \<open>B\<close> the field \<^verbatim>\<open>buckets\<close>, which \<^verbatim>\<open>NewProcessor\<close> sets to
  \<^verbatim>\<open>LookbackInterval / CalculationInterval\<close> next to an empty ring.
  \<^item> \<^verbatim>\<open>prependThroughputBucket\<close>, given a bucket that ends no earlier than those of a
    ring that is most recent first, keeps the first \<open>B\<close> of the new bucket followed by
    the old ring: at most \<open>B\<close> buckets, most recent first, the oldest dropped.
  \<^item> The walk of \<^verbatim>\<open>initializeThroughput\<close> from an empty ring, stopped after any number
    \<open>k \<le> B\<close> of passes, leaves at most \<open>B\<close> buckets, most recent first, none ending
    after the time the walk starts from.
  \<^item> A calculation tick whose clock reading less the delay is not before
    \<^verbatim>\<open>lastCheckedTime\<close> keeps a ring of at most \<open>B\<close> buckets, most recent first, none
    ending after \<^verbatim>\<open>lastCheckedTime\<close>.
\<close>

theorem throughput_ring_discipline:
  "(0 \<le> buckets p \<and> most_recent_first (throughputs p)
      \<and> not_after (endTime bucket) (throughputs p)
    \<longrightarrow> (\<exists>p'. prependThroughputBucket p bucket = Inr p'
           \<and> throughputs p' = take (nat (buckets p)) (bucket # throughputs p)
           \<and> buckets p' = buckets p \<and> ring_ok p'))
   \<and> (throughputs q = [] \<and> int k \<le> buckets q \<and> 0 \<le> CalculationInterval (config q)
    \<longrightarrow> ring_ok (initializeThroughput_loop GetThroughput k q endT)
        \<and> not_after endT (throughputs (initializeThroughput_loop GetThroughput k q endT)))
   \<and> (ring_ok r \<and> not_after lastCheckedTime (throughputs r)
      \<and> lastCheckedTime \<le> now - Delay (config r)
      \<and> calculationTick truncateFloat GetThroughput now (r, lastCheckedTime) = Inr (r', t')
    \<longrightarrow> ring_ok r' \<and> not_after t' (throughputs r') \<and> buckets r' = buckets r)
   \<and> (NewProcessor cfg host weights calculator = Inr p0 \<and> 0 < CalculationInterval cfg
      \<and> LookbackInterval cfg < 2 ^ 63
    \<longrightarrow> buckets p0 = LookbackInterval cfg div CalculationInterval cfg \<and> throughputs p0 = [])"
proof -
  have one: "0 \<le> buckets p \<and> most_recent_first (throughputs p)
      \<and> not_after (endTime bucket) (throughputs p)
    \<longrightarrow> (\<exists>p'. prependThroughputBucket p bucket = Inr p'
           \<and> throughputs p' = take (nat (buckets p)) (bucket # throughputs p)
           \<and> buckets p' = buckets p \<and> ring_ok p')"
    using prependThroughputBucket_ring [of p bucket] by blast
  have two: "throughputs q = [] \<and> int k \<le> buckets q \<and> 0 \<le> CalculationInterval (config q)
    \<longrightarrow> ring_ok (initializeThroughput_loop GetThroughput k q endT)
        \<and> not_after endT (throughputs (initializeThroughput_loop GetThroughput k q endT))"
  proof (intro impI, elim conjE)
    assume e: "throughputs q = []" and k: "int k \<le> buckets q"
      and c: "0 \<le> CalculationInterval (config q)"
    have "ring_ok (initializeThroughput_loop GetThroughput k q endT)"
      using e k c
      by (intro initializeThroughput_loop_ring) (simp_all add: most_recent_first_def not_before_def)
    moreover
    have "not_after endT (throughputs (initializeThroughput_loop GetThroughput k q endT))"
      using e c by (intro initializeThroughput_loop_not_after) (simp_all add: not_after_def)
    ultimately
    show "ring_ok (initializeThroughput_loop GetThroughput k q endT)
        \<and> not_after endT (throughputs (initializeThroughput_loop GetThroughput k q endT))" ..
  qed
  have three: "ring_ok r \<and> not_after lastCheckedTime (throughputs r)
      \<and> lastCheckedTime \<le> now - Delay (config r)
      \<and> calculationTick truncateFloat GetThroughput now (r, lastCheckedTime) = Inr (r', t')
    \<longrightarrow> ring_ok r' \<and> not_after t' (throughputs r') \<and> buckets r' = buckets r"
    using calculationTick_ring [of r lastCheckedTime now truncateFloat GetThroughput r' t']
    by blast
  have four: "NewProcessor cfg host weights calculator = Inr p0 \<and> 0 < CalculationInterval cfg
      \<and> LookbackInterval cfg < 2 ^ 63
    \<longrightarrow> buckets p0 = LookbackInterval cfg div CalculationInterval cfg \<and> throughputs p0 = []"
    using NewProcessor_buckets [of cfg host weights calculator p0] by blast
  show ?thesis
    by (intro conjI) (rule one two three four)+
qed

theorem throughput_ring_discipline_witness:
  "0 \<le> buckets example_processor \<and> most_recent_first (throughputs example_processor)
   \<and> not_after (endTime (S1_bucket {} (2 * second))) (throughputs example_processor)
   \<and> (\<exists>p'. prependThroughputBucket example_processor (S1_bucket {} (2 * second)) = Inr p'
          \<and> throughputs p' = take (nat (buckets example_processor))
                                (S1_bucket {} (2 * second) # throughputs example_processor)
          \<and> buckets p' = buckets example_processor \<and> ring_ok p')
   \<and> throughputs (S1_initial 0.01 decayWeights (percentageIncreaseCapped 1.0)) = []
   \<and> int 2 \<le> buckets (S1_initial 0.01 decayWeights (percentageIncreaseCapped 1.0))
   \<and> 0 \<le> CalculationInterval (config (S1_initial 0.01 decayWeights (percentageIncreaseCapped 1.0)))
   \<and> ring_ok (initializeThroughput_loop (S1_store {}) 2
                (S1_initial 0.01 decayWeights (percentageIncreaseCapped 1.0)) 0)
   \<and> ring_ok (S1_initial 0.01 decayWeights (percentageIncreaseCapped 1.0))
   \<and> not_after 0 (throughputs (S1_initial 0.01 decayWeights (percentageIncreaseCapped 1.0)))
   \<and> 0 \<le> 1 * second - Delay (config (S1_initial 0.01 decayWeights (percentageIncreaseCapped 1.0)))
   \<and> calculationTick truncateFloat4 (S1_store {}) (1 * second)
       (S1_initial 0.01 decayWeights (percentageIncreaseCapped 1.0), 0) =
       Inr (S1_processor 0.01 decayWeights (percentageIncreaseCapped 1.0) 0.002
              [S1_bucket {} (1 * second)] [S1_snapshot 0.001], 1 * second)
   \<and> ring_ok (S1_processor 0.01 decayWeights (percentageIncreaseCapped 1.0) 0.002
              [S1_bucket {} (1 * second)] [S1_snapshot 0.001])
   \<and> NewProcessor (S1_config 0.01) ''collector'' decayWeights (percentageIncreaseCapped 1.0) =
       Inr ((S1_initial 0.01 decayWeights (percentageIncreaseCapped 1.0))\<lparr>leader := False\<rparr>)
   \<and> 0 < CalculationInterval (S1_config 0.01) \<and> LookbackInterval (S1_config 0.01) < 2 ^ 63
   \<and> buckets ((S1_initial 0.01 decayWeights (percentageIncreaseCapped 1.0))\<lparr>leader := False\<rparr>)
       = LookbackInterval (S1_config 0.01) div CalculationInterval (S1_config 0.01)"
proof -
  let ?w = decayWeights and ?c = "percentageIncreaseCapped 1.0"
  let ?i = "S1_initial 0.01 ?w ?c"
  let ?r' = "S1_processor 0.01 ?w ?c 0.002 [S1_bucket {} (1 * second)] [S1_snapshot 0.001]"
  have a1: "0 \<le> buckets example_processor"
    and a2: "most_recent_first (throughputs example_processor)"
    and a3: "not_after (endTime (S1_bucket {} (2 * second))) (throughputs example_processor)"
    by (simp_all add: example_processor_def most_recent_first_def not_after_def S1_bucket_def
        second_def)
  have b1: "throughputs ?i = []" and b2: "int 2 \<le> buckets ?i"
    and b3: "0 \<le> CalculationInterval (config ?i)"
    by (simp_all add: S1_initial_def cfg_simps)
  have c1: "ring_ok ?i" and c2: "not_after 0 (throughputs ?i)"
    and c3: "0 \<le> 1 * second - Delay (config ?i)"
    by (simp_all add: S1_initial_def cfg_simps ring_ok_def most_recent_first_def not_after_def)
  have c4: "calculationTick truncateFloat4 (S1_store {}) (1 * second) (?i, 0) =
              Inr (?r', 1 * second)"
    by (rule S1_tick1_step) (simp_all add: length_decayWeights)
  have d1: "NewProcessor (S1_config 0.01) ''collector'' ?w ?c = Inr (?i\<lparr>leader := False\<rparr>)"
    by (rule NewProcessor_S1)
  have d2: "0 < CalculationInterval (S1_config 0.01)"
    and d3: "LookbackInterval (S1_config 0.01) < 2 ^ 63"
    by (simp_all add: cfg_simps)
  note inst = throughput_ring_discipline
    [where p = example_processor and bucket = "S1_bucket {} (2 * second)"
       and q = ?i and k = 2 and GetThroughput = "S1_store {}" and endT = "0"
       and r = ?i and lastCheckedTime = "0" and now = "1 * second"
       and truncateFloat = truncateFloat4 and r' = ?r' and t' = "1 * second"
       and cfg = "S1_config 0.01" and host = "''collector''" and weights = ?w and calculator = ?c
       and ?p0.0 = "?i\<lparr>leader := False\<rparr>"]
  note r1 = inst [THEN conjunct1, THEN mp, OF conjI [OF a1 conjI [OF a2 a3]]]
  note r2 = inst [THEN conjunct2, THEN conjunct1, THEN mp, OF conjI [OF b1 conjI [OF b2 b3]],
      THEN conjunct1]
  note r3 = inst [THEN conjunct2, THEN conjunct2, THEN conjunct1, THEN mp,
      OF conjI [OF c1 conjI [OF c2 conjI [OF c3 c4]]], THEN conjunct1]
  note r4 = inst [THEN conjunct2, THEN conjunct2, THEN conjunct2, THEN mp,
      OF conjI [OF d1 conjI [OF d2 d3]], THEN conjunct1]
  show ?thesis
    by (intro conjI) (rule a1 a2 a3 r1 b1 b2 b3 r2 c1 c2 c3 c4 r3 d1 d2 d3 r4)+
qed

text \<open>
  C9. \<^verbatim>\<open>GetSamplingStrategyResponses\<close> returns the cached response of a service that has
  one, and otherwise the default response: type \<^verbatim>\<open>PROBABILISTIC\<close>,
  \<^verbatim>\<open>DefaultSamplingProbability\<close> as default probability, \<^verbatim>\<open>LowerBoundTracesPerSecond\<close> as
  default lower bound, and no strategy for any operation.
\<close>

theorem GetSamplingStrategyResponses_cached_or_default:
  "(map_of (strategyResponses p) service = Some strategy \<longrightarrow>
      GetSamplingStrategyResponses p service = strategy)
   \<and> (map_of (strategyResponses p) service = None \<longrightarrow>
      GetSamplingStrategyResponses p service =
        \<lparr> StrategyType = SamplingStrategyType_PROBABILISTIC,
          OperationSampling = Some
            \<lparr> opDefaultSamplingProbability = DefaultSamplingProbability (config p),
              opDefaultLowerBoundTracesPerSecond = LowerBoundTracesPerSecond (config p),
              PerOperationStrategies = [] \<rparr> \<rparr>)"
  by (simp add: GetSamplingStrategyResponses_def generateDefaultSamplingStrategyResponse_def)

theorem GetSamplingStrategyResponses_cached_or_default_witness:
  "map_of (strategyResponses example_processor) ''A'' =
     Some \<lparr> StrategyType = SamplingStrategyType_PROBABILISTIC,
            OperationSampling = Some
              \<lparr> opDefaultSamplingProbability = 0.001,
                opDefaultLowerBoundTracesPerSecond = 0,
                PerOperationStrategies =
                  [\<lparr> strategyOperation = ''x'',
                     ProbabilisticSampling = Some \<lparr> SamplingRate = 0.3 \<rparr> \<rparr>] \<rparr> \<rparr>
   \<and> GetSamplingStrategyResponses example_processor ''A'' =
       \<lparr> StrategyType = SamplingStrategyType_PROBABILISTIC,
         OperationSampling = Some
           \<lparr> opDefaultSamplingProbability = 0.001,
             opDefaultLowerBoundTracesPerSecond = 0,
             PerOperationStrategies =
               [\<lparr> strategyOperation = ''x'',
                  ProbabilisticSampling = Some \<lparr> SamplingRate = 0.3 \<rparr> \<rparr>] \<rparr> \<rparr>
   \<and> map_of (strategyResponses example_processor) ''B'' = None
   \<and> GetSamplingStrategyResponses example_processor ''B'' =
       \<lparr> StrategyType = SamplingStrategyType_PROBABILISTIC,
         OperationSampling = Some
           \<lparr> opDefaultSamplingProbability = 0.001,
             opDefaultLowerBoundTracesPerSecond = 0,
             PerOperationStrategies = [] \<rparr> \<rparr>"
  using GetSamplingStrategyResponses_cached_or_default [where p = example_processor
      and service = "''A''"
      and strategy = "\<lparr> StrategyType = SamplingStrategyType_PROBABILISTIC,
         OperationSampling = Some
           \<lparr> opDefaultSamplingProbability = 0.001,
             opDefaultLowerBoundTracesPerSecond = 0,
             PerOperationStrategies =
               [\<lparr> strategyOperation = ''x'',
                  ProbabilisticSampling = Some \<lparr> SamplingRate = 0.3 \<rparr> \<rparr>] \<rparr> \<rparr>"]
    GetSamplingStrategyResponses_cached_or_default [where p = example_processor
      and service = "''B''"]
  by (simp add: example_processor_def cfg_simps)

text \<open>
  C10. \<^verbatim>\<open>calculateProbability\<close> reads \<^verbatim>\<open>p.throughputs[0]\<close> unguarded: on an empty ring it
  panics. With at least one bucket allowed (\<^verbatim>\<open>buckets\<close> positive, as \<^verbatim>\<open>NewProcessor\<close>
  makes it for a positive \<^verbatim>\<open>CalculationInterval\<close>, the only kind a ticker accepts),
  \<^verbatim>\<open>prependThroughputBucket\<close> leaves a ring that is not empty; on such a ring
  \<^verbatim>\<open>calculateProbability\<close> does not fail on that read; hence no calculation tick fails
  on it, and a tick leaves \<^verbatim>\<open>buckets\<close> as it is, so that the same holds for the next
  tick.
\<close>

theorem throughputs_nonempty_when_calculating:
  "(throughputs e = [] \<longrightarrow>
      calculateProbability truncateFloat e service operation qps_v
        = Inl ThroughputsIndexOutOfRange)
   \<and> (0 < buckets p \<longrightarrow>
      (\<exists>p1. prependThroughputBucket p bucket = Inr p1 \<and> throughputs p1 \<noteq> []))
   \<and> (throughputs q \<noteq> [] \<longrightarrow>
      calculateProbability truncateFloat q service operation qps_v
        \<noteq> Inl ThroughputsIndexOutOfRange)
   \<and> (0 < buckets p \<longrightarrow>
      calculationTick truncateFloat GetThroughput now (p, lastCheckedTime)
        \<noteq> Inl ThroughputsIndexOutOfRange)
   \<and> (calculationTick truncateFloat GetThroughput now (p, lastCheckedTime) = Inr (p', t')
      \<longrightarrow> buckets p' = buckets p)
   \<and> (NewProcessor cfg host weights calculator = Inr p0 \<and> 0 < CalculationInterval cfg
      \<and> LookbackInterval cfg < 2 ^ 63 \<longrightarrow> 0 < buckets p0)"
proof -
  have zero: "throughputs e = [] \<longrightarrow>
      calculateProbability truncateFloat e service operation qps_v
        = Inl ThroughputsIndexOutOfRange"
    by (simp add: calculateProbability_def Let_def)
  have one: "0 < buckets p \<longrightarrow>
      (\<exists>p1. prependThroughputBucket p bucket = Inr p1 \<and> throughputs p1 \<noteq> [])"
    using prependThroughputBucket_nonempty by blast
  have two: "throughputs q \<noteq> [] \<longrightarrow>
      calculateProbability truncateFloat q service operation qps_v
        \<noteq> Inl ThroughputsIndexOutOfRange"
    using calculateProbability_ring_nonempty by blast
  have three: "0 < buckets p \<longrightarrow>
      calculationTick truncateFloat GetThroughput now (p, lastCheckedTime)
        \<noteq> Inl ThroughputsIndexOutOfRange"
    using calculationTick_no_throughputs_panic by blast
  have four: "calculationTick truncateFloat GetThroughput now (p, lastCheckedTime) = Inr (p', t')
      \<longrightarrow> buckets p' = buckets p"
    using calculationTick_fields by blast
  have five: "NewProcessor cfg host weights calculator = Inr p0 \<and> 0 < CalculationInterval cfg
      \<and> LookbackInterval cfg < 2 ^ 63 \<longrightarrow> 0 < buckets p0"
    using NewProcessor_buckets [of cfg host weights calculator p0] by blast
  show ?thesis
    by (intro conjI) (rule zero one two three four five)+
qed

theorem throughputs_nonempty_when_calculating_witness:
  "throughputs (S1_initial 0.01 decayWeights (percentageIncreaseCapped 1.0)) = []
   \<and> calculateProbability truncateFloat4 (S1_initial 0.01 decayWeights (percentageIncreaseCapped 1.0))
       ''A'' ''x'' 0 = Inl ThroughputsIndexOutOfRange
   \<and> 0 < buckets (S1_initial 0.01 decayWeights (percentageIncreaseCapped 1.0))
   \<and> (\<exists>p1. prependThroughputBucket (S1_initial 0.01 decayWeights (percentageIncreaseCapped 1.0))
             (S1_bucket {} (1 * second)) = Inr p1 \<and> throughputs p1 \<noteq> [])
   \<and> throughputs example_processor \<noteq> []
   \<and> calculateProbability truncateFloat4 example_processor ''A'' ''x'' 0
       \<noteq> Inl ThroughputsIndexOutOfRange
   \<and> calculationTick truncateFloat4 (S1_store {}) (1 * second)
       (S1_initial 0.01 decayWeights (percentageIncreaseCapped 1.0), 0)
       \<noteq> Inl ThroughputsIndexOutOfRange
   \<and> calculationTick truncateFloat4 (S1_store {}) (1 * second)
       (S1_initial 0.01 decayWeights (percentageIncreaseCapped 1.0), 0) =
       Inr (S1_processor 0.01 decayWeights (percentageIncreaseCapped 1.0) 0.002
              [S1_bucket {} (1 * second)] [S1_snapshot 0.001], 1 * second)
   \<and> buckets (S1_processor 0.01 decayWeights (percentageIncreaseCapped 1.0) 0.002
              [S1_bucket {} (1 * second)] [S1_snapshot 0.001])
       = buckets (S1_initial 0.01 decayWeights (percentageIncreaseCapped 1.0))
   \<and> NewProcessor (S1_config 0.01) ''collector'' decayWeights (percentageIncreaseCapped 1.0) =
       Inr ((S1_initial 0.01 decayWeights (percentageIncreaseCapped 1.0))\<lparr>leader := False\<rparr>)
   \<and> 0 < CalculationInterval (S1_config 0.01) \<and> LookbackInterval (S1_config 0.01) < 2 ^ 63
   \<and> 0 < buckets ((S1_initial 0.01 decayWeights (percentageIncreaseCapped 1.0))\<lparr>leader := False\<rparr>)"
proof -
  let ?w = decayWeights and ?c = "percentageIncreaseCapped 1.0"
  let ?i = "S1_initial 0.01 ?w ?c"
  let ?p' = "S1_processor 0.01 ?w ?c 0.002 [S1_bucket {} (1 * second)] [S1_snapshot 0.001]"
  have a0: "throughputs ?i = []" and a1: "0 < buckets ?i" by (simp_all add: S1_initial_def)
  note b1 = example_processor_lists(1)
  have c1: "calculationTick truncateFloat4 (S1_store {}) (1 * second) (?i, 0) =
              Inr (?p', 1 * second)"
    by (rule S1_tick1_step) (simp_all add: length_decayWeights)
  have d1: "NewProcessor (S1_config 0.01) ''collector'' ?w ?c = Inr (?i\<lparr>leader := False\<rparr>)"
    by (rule NewProcessor_S1)
  have d2: "0 < CalculationInterval (S1_config 0.01)"
    and d3: "LookbackInterval (S1_config 0.01) < 2 ^ 63"
    by (simp_all add: cfg_simps)
  note inst = throughputs_nonempty_when_calculating
    [where e = ?i and p = ?i and bucket = "S1_bucket {} (1 * second)"
       and q = example_processor and service = "''A''" and operation = "''x''" and qps_v = "0"
       and truncateFloat = truncateFloat4 and GetThroughput = "S1_store {}"
       and now = "1 * second" and lastCheckedTime = "0" and p' = ?p' and t' = "1 * second"
       and cfg = "S1_config 0.01" and host = "''collector''" and weights = ?w and calculator = ?c
       and ?p0.0 = "?i\<lparr>leader := False\<rparr>"]
  note r0 = inst [THEN conjunct1, THEN mp, OF a0]
  note rest = inst [THEN conjunct2]
  note r1 = rest [THEN conjunct1, THEN mp, OF a1]
  note r2 = rest [THEN conjunct2, THEN conjunct1, THEN mp, OF b1]
  note r3 = rest [THEN conjunct2, THEN conjunct2, THEN conjunct1, THEN mp, OF a1]
  note r4 = rest [THEN conjunct2, THEN conjunct2, THEN conjunct2, THEN conjunct1, THEN mp, OF c1]
  note r5 = rest [THEN conjunct2, THEN conjunct2, THEN conjunct2, THEN conjunct2, THEN mp,
      OF conjI [OF d1 conjI [OF d2 d3]]]
  show ?thesis
    by (intro conjI) (rule a0 r0 a1 r1 b1 r2 r3 c1 r4 d1 d2 d3 r5)+
qed

end
